theory Spec2Isabelle
  imports Complex_Main
begin

section \<open>Python text and integers\<close>

text \<open>
  Python \<open>str\<close> values are modelled as \<open>string\<close>: a \<open>char\<close> is a code point below 256.
  The helpers below follow CPython (3.11, default settings) on these characters.
\<close>

datatype py_error =
    JSONDecodeError | ValueError | TypeError | AttributeError | OverflowError
  | RecursionError | EOFError

text \<open>\<open>str.isspace\<close>: tab to carriage return, the four separators 0x1C..0x1F, the
  blank, next-line 0x85 and the no-break space 0xA0.\<close>

definition is_space :: "char \<Rightarrow> bool" where
  "is_space c = ((9 \<le> (of_char c :: nat) \<and> (of_char c :: nat) \<le> 13)
                 \<or> (28 \<le> (of_char c :: nat) \<and> (of_char c :: nat) \<le> 32)
                 \<or> (of_char c :: nat) = 133 \<or> (of_char c :: nat) = 160)"

text \<open>The blanks that \<open>int(str)\<close> itself skips around the literal: tab to carriage
  return, the blank, 0x85 and 0xA0, but not the separators 0x1C..0x1F.\<close>

definition is_int_space :: "char \<Rightarrow> bool" where
  "is_int_space c = ((9 \<le> (of_char c :: nat) \<and> (of_char c :: nat) \<le> 13)
                     \<or> (of_char c :: nat) = 32
                     \<or> (of_char c :: nat) = 133 \<or> (of_char c :: nat) = 160)"

definition strip_with :: "(char \<Rightarrow> bool) \<Rightarrow> string \<Rightarrow> string" where
  "strip_with p s = rev (dropWhile p (rev (dropWhile p s)))"

text \<open>\<open>s.strip()\<close>\<close>

definition strip :: "string \<Rightarrow> string" where
  "strip s = strip_with is_space s"

text \<open>\<open>s.split(sep)\<close> for a one-character separator: never an empty list.\<close>

definition push_char :: "char \<Rightarrow> string list \<Rightarrow> string list" where
  "push_char c parts = (c # hd parts) # tl parts"

fun split :: "char \<Rightarrow> string \<Rightarrow> string list" where
  "split sep [] = [[]]"
| "split sep (c # cs) =
     (if c = sep then [] # split sep cs else push_char c (split sep cs))"

text \<open>\<open>s.split(sep, maxsplit)\<close>\<close>

fun splitn :: "nat \<Rightarrow> char \<Rightarrow> string \<Rightarrow> string list" where
  "splitn 0 sep s = [s]"
| "splitn (Suc n) sep [] = [[]]"
| "splitn (Suc n) sep (c # cs) =
     (if c = sep then [] # splitn n sep cs else push_char c (splitn (Suc n) sep cs))"

definition is_digit :: "char \<Rightarrow> bool" where
  "is_digit c = (48 \<le> (of_char c :: nat) \<and> (of_char c :: nat) \<le> 57)"

definition digit_val :: "char \<Rightarrow> nat" where
  "digit_val c = (of_char c :: nat) - 48"

text \<open>The decimal rendering of a natural number, most significant digit first.\<close>

fun digits :: "nat \<Rightarrow> string" where
  "digits n = (if n < 10 then [char_of (48 + n)]
               else digits (n div 10) @ [char_of (48 + n mod 10)])"

declare digits.simps [simp del]

text \<open>The decimal text of an integer: a minus sign for a negative one, then the digits.\<close>

definition int_text :: "int \<Rightarrow> string" where
  "int_text i = (if i < 0 then CHR ''-'' # digits (nat (- i)) else digits (nat i))"

text \<open>The interpreter's default limit on conversions between \<open>int\<close> and \<open>str\<close>.\<close>

definition max_str_digits :: nat where
  "max_str_digits = 4300"

text \<open>\<open>str(n)\<close>, also inside an f-string: \<open>ValueError\<close> for an integer of more than 4300
  digits.\<close>

definition py_str :: "int \<Rightarrow> py_error + string" where
  "py_str i =
     (if max_str_digits < length (digits (nat \<bar>i\<bar>)) then Inl ValueError
      else Inr (int_text i))"

text \<open>The digit part of a decimal literal accepted by \<open>int\<close>: digits, with single
  underscores allowed between two digits.\<close>

fun valid_digits :: "string \<Rightarrow> bool" where
  "valid_digits [] = False"
| "valid_digits [c] = is_digit c"
| "valid_digits (c # d # cs) =
     (is_digit c \<and> (if d = CHR ''_'' then valid_digits cs else valid_digits (d # cs)))"

definition digits_value :: "string \<Rightarrow> nat" where
  "digits_value body = foldl (\<lambda>a c. 10 * a + digit_val c) 0 (filter is_digit body)"

text \<open>\<open>int(s)\<close> for a \<open>str\<close> argument, base ten: surrounding blanks, an optional sign,
  then at most 4300 digits; anything else raises \<open>ValueError\<close>.\<close>

definition py_int :: "string \<Rightarrow> py_error + int" where
  "py_int s =
     (let t = strip_with is_int_space s;
          neg = (t \<noteq> [] \<and> hd t = CHR ''-'');
          body = (if t \<noteq> [] \<and> (hd t = CHR ''-'' \<or> hd t = CHR ''+'') then tl t else t)
      in if valid_digits body \<and> length (filter is_digit body) \<le> max_str_digits
         then Inr (if neg then - int (digits_value body) else int (digits_value body))
         else Inl ValueError)"

section \<open>analyze_asn_relationships\<close>

text \<open>
  The bulk whois exchange is the network's answer to a list of query lines; it is a
  parameter of the model: \<open>bulk i batch\<close> is the text that \<open>bulk_whois_query\<close> returns
  for the \<open>i\<close>-th call (the empty string on any socket error).
\<close>

type_synonym bulk_whois = "nat \<Rightarrow> string list \<Rightarrow> string"

text \<open>\<open>for i in range(0, len(asn_queries), batch_size): batch = asn_queries[i:i+batch_size]\<close>
  with \<open>batch_size = 100\<close>\<close>

function batches :: "'a list \<Rightarrow> 'a list list" where
  "batches xs = (if xs = [] then [] else take 100 xs # batches (drop 100 xs))"
  by pat_completeness auto
termination
  by (relation "measure length") auto

declare batches.simps [simp del]

text \<open>\<open>asn_queries = [f"as{asn}" for asn in asn_list]\<close>: the comprehension raises when
  \<open>str\<close> does.\<close>

fun asn_queries :: "int list \<Rightarrow> py_error + string list" where
  "asn_queries [] = Inr []"
| "asn_queries (asn # rest) =
     (case py_str asn of
        Inl e \<Rightarrow> Inl e
      | Inr s \<Rightarrow>
          (case asn_queries rest of
             Inl e \<Rightarrow> Inl e
           | Inr queries \<Rightarrow> Inr ((''as'' @ s) # queries)))"

text \<open>The list \<open>all_results\<close>: the non-empty replies, in batch order.\<close>

definition all_results :: "bulk_whois \<Rightarrow> string list \<Rightarrow> string list" where
  "all_results bulk queries =
     filter (\<lambda>result. result \<noteq> [])
       (map (\<lambda>(i, batch). bulk i batch) (enumerate 0 (batches queries)))"

text \<open>The body of the inner loop, for one line of one reply; the accumulator is the
  pair \<open>(potential_peers, non_peers)\<close>. A \<open>ValueError\<close>, from \<open>int\<close> or from \<open>str\<close>, skips the
  line.\<close>

definition classify_line ::
  "int \<Rightarrow> int list \<Rightarrow> int set \<times> int set \<Rightarrow> string \<Rightarrow> int set \<times> int set" where
  "classify_line target_asn asn_list acc line =
     (if strip line \<noteq> [] then
        (let parts = split CHR ''|'' line in
         if 7 \<le> length parts then
           (case py_int (strip (parts ! 0)) of
              Inl e \<Rightarrow> acc
            | Inr asn \<Rightarrow>
                (let country = strip (parts ! 4);
                     name = strip (parts ! 6)
                 in if asn \<in> set asn_list \<and> asn \<noteq> target_asn then
                      (case py_str asn of
                         Inl e \<Rightarrow> acc
                       | Inr asn_text \<Rightarrow>
                           (case py_str target_asn of
                              Inl e \<Rightarrow> acc
                            | Inr target_text \<Rightarrow>
                                if length asn_text = length target_text
                                then (insert asn (fst acc), snd acc)
                                else (fst acc, insert asn (snd acc))))
                    else acc))
         else acc)
      else acc)"

definition classify_results ::
  "int \<Rightarrow> int list \<Rightarrow> string list \<Rightarrow> int set \<times> int set" where
  "classify_results target_asn asn_list replies =
     foldl (\<lambda>acc result.
              foldl (classify_line target_asn asn_list) acc
                (split CHR ''\<newline>'' (strip result)))
       ({}, {}) replies"

text \<open>\<open>analyze_asn_relationships\<close>: the queries are built first, then the replies are
  collected and parsed.\<close>

definition analyze_asn_relationships ::
  "bulk_whois \<Rightarrow> int \<Rightarrow> int list \<Rightarrow> py_error + int set \<times> int set" where
  "analyze_asn_relationships bulk target_asn asn_list =
     (case asn_queries asn_list of
        Inl e \<Rightarrow> Inl e
      | Inr queries \<Rightarrow>
          Inr (classify_results target_asn asn_list (all_results bulk queries)))"

subsection \<open>Notions used to state the properties of the classification\<close>

text \<open>The number of decimal digits of a natural number.\<close>

fun decimal_digits :: "nat \<Rightarrow> nat" where
  "decimal_digits n = (if n < 10 then 1 else Suc (decimal_digits (n div 10)))"

declare decimal_digits.simps [simp del]

text \<open>The length of the decimal text of an integer: its digits, and the minus sign of a
  negative one.\<close>

definition text_length :: "int \<Rightarrow> nat" where
  "text_length i = (if i < 0 then 1 else 0) + decimal_digits (nat \<bar>i\<bar>)"

text \<open>The two tests of the classification, as the code makes them on the texts of the
  two numbers: neither holds when \<open>str\<close> of the target raises.\<close>

definition listed_as_peer :: "int \<Rightarrow> int \<Rightarrow> bool" where
  "listed_as_peer target a =
     (case py_str target of Inl e \<Rightarrow> False | Inr t \<Rightarrow> length (int_text a) = length t)"

definition listed_as_other :: "int \<Rightarrow> int \<Rightarrow> bool" where
  "listed_as_other target a =
     (case py_str target of Inl e \<Rightarrow> False | Inr t \<Rightarrow> length (int_text a) \<noteq> length t)"

text \<open>The lines of all replies, as the parser sees them.\<close>

definition reply_lines :: "string list \<Rightarrow> string list" where
  "reply_lines replies = concat (map (\<lambda>result. split CHR ''\<newline>'' (strip result)) replies)"

text \<open>The ASN of a whois record: a line of at least seven pipe-delimited fields whose
  field 0 reads as an integer.\<close>

definition record_asn :: "string \<Rightarrow> int option" where
  "record_asn line =
     (if 7 \<le> length (split CHR ''|'' line) then
        (case py_int (strip (split CHR ''|'' line ! 0)) of
           Inl e \<Rightarrow> None | Inr asn \<Rightarrow> Some asn)
      else None)"

text \<open>The ASNs that have a record somewhere in the replies.\<close>

definition response_asns :: "string list \<Rightarrow> int set" where
  "response_asns replies = set (List.map_filter record_asn (reply_lines replies))"

text \<open>The sequence of first fields of the lines with at least seven fields.\<close>

definition asn_fields :: "string list \<Rightarrow> string list" where
  "asn_fields replies =
     map (\<lambda>line. split CHR ''|'' line ! 0)
       (filter (\<lambda>line. 7 \<le> length (split CHR ''|'' line)) (reply_lines replies))"

text \<open>Two sample replies with the same ASN fields and different countries and names.\<close>

definition sample_reply_a :: string where
  "sample_reply_a =
     ''64512 | 192.0.2.0/24 | x | y | US | arin | Example Net\<newline>7 | 198.51.100.0/24 | x | y | DE | ripe | Seven\<newline>''"

definition sample_reply_b :: string where
  "sample_reply_b =
     ''64512 | 192.0.2.0/24 | x | y | FR | arin | Other Name\<newline>7 | 198.51.100.0/24 | x | y | JP | ripe | Sieben\<newline>''"

text \<open>Two networks: each answers the first bulk call with one of the sample replies.\<close>

definition sample_bulk_a :: bulk_whois where
  "sample_bulk_a i batch = (if i = 0 then sample_reply_a else [])"

definition sample_bulk_b :: bulk_whois where
  "sample_bulk_b i batch = (if i = 0 then sample_reply_b else [])"

text \<open>A reply with a record whose ASN field is negative, one whose ASN field is wrapped
  in no-break spaces, and the network that gives it.\<close>

definition sample_reply_c :: string where
  "sample_reply_c =
     ''-12 | 192.0.2.0/24 | x | y | US | arin | Minus Twelve\<newline>'' @ [CHR 0xA0] @ ''7'' @ [CHR 0xA0]
       @ ''| 198.51.100.0/24 | x | y | DE | ripe | Seven\<newline>''"

definition sample_bulk_c :: bulk_whois where
  "sample_bulk_c i batch = (if i = 0 then sample_reply_c else [])"

section \<open>The route table\<close>

text \<open>
  A Python \<open>float\<close>: a finite value, carried by the rational it denotes, or one of the
  three special values.
\<close>

datatype py_float = Finite rat | PosInf | NegInf | NaN

text \<open>The values \<open>json.loads\<close> returns; a JSON object is a \<open>dict\<close> with \<open>str\<close> keys,
  given by its items.\<close>

datatype json =
    JNull | JBool bool | JInt int | JFloat py_float | JStr string
  | JList "json list" | JDict "(string \<times> json) list"

text \<open>
  The hashable JSON values, as dictionary keys: a string, a number or \<open>None\<close>. Python
  compares and hashes \<open>True\<close>, \<open>1\<close> and \<open>1.0\<close> as one key, so a numeric key is carried by
  its value.
\<close>

datatype py_key = KStr string | KNum py_float | KNone

text \<open>The dictionary \<open>prefix_to_asn\<close>, as its items in insertion order.\<close>

type_synonym route_table = "(py_key \<times> int) list"

section \<open>get_related_asns\<close>

text \<open>
  The grouping key of a prefix string, as both loops of \<open>get_related_asns\<close> compute it:
  nothing without a slash; otherwise the first two dot-separated parts of the text before
  the first slash when that text has a dot, else its first two colon-separated parts
  when it has a colon.
\<close>

definition prefix_key :: "string \<Rightarrow> string option" where
  "prefix_key prefix =
     (if CHR ''/'' \<in> set prefix then
        (let ip_part = hd (split CHR ''/'' prefix) in
         if CHR ''.'' \<in> set ip_part then
           (let octets = split CHR ''.'' ip_part in
            if 2 \<le> length octets then Some (octets ! 0 @ ''.'' @ octets ! 1) else None)
         else if CHR '':'' \<in> set ip_part then
           (let parts = split CHR '':'' ip_part in
            if 2 \<le> length parts then Some (parts ! 0 @ '':'' @ parts ! 1) else None)
         else None)
      else None)"

text \<open>\<open>'/' in prefix\<close> raises \<open>TypeError\<close> when the key is not a string.\<close>

fun grouping_key :: "py_key \<Rightarrow> py_error + string option" where
  "grouping_key (KStr prefix) = Inr (prefix_key prefix)"
| "grouping_key (KNum x) = Inl TypeError"
| "grouping_key KNone = Inl TypeError"

text \<open>The loop over \<open>our_prefixes\<close> that fills \<open>our_networks\<close>.\<close>

fun collect_networks :: "py_key list \<Rightarrow> string set \<Rightarrow> py_error + string set" where
  "collect_networks [] our_networks = Inr our_networks"
| "collect_networks (prefix # rest) our_networks =
     (case grouping_key prefix of
        Inl e \<Rightarrow> Inl e
      | Inr None \<Rightarrow> collect_networks rest our_networks
      | Inr (Some network) \<Rightarrow> collect_networks rest (insert network our_networks))"

text \<open>The second loop over the table; \<open>asn != self.target_asn and '/' in prefix\<close> tests
  the ASN first.\<close>

fun scan_table :: "int \<Rightarrow> string set \<Rightarrow> route_table \<Rightarrow> int set \<Rightarrow> py_error + int set" where
  "scan_table target_asn our_networks [] related_asns = Inr related_asns"
| "scan_table target_asn our_networks ((prefix, asn) # rest) related_asns =
     (if asn \<noteq> target_asn then
        (case grouping_key prefix of
           Inl e \<Rightarrow> Inl e
         | Inr None \<Rightarrow> scan_table target_asn our_networks rest related_asns
         | Inr (Some network) \<Rightarrow>
             if network \<in> our_networks
             then scan_table target_asn our_networks rest (insert asn related_asns)
             else scan_table target_asn our_networks rest related_asns)
      else scan_table target_asn our_networks rest related_asns)"

text \<open>\<open>get_related_asns\<close>; the table that \<open>download_table\<close> returned is an argument.\<close>

definition get_related_asns :: "int \<Rightarrow> route_table \<Rightarrow> py_error + int set" where
  "get_related_asns target_asn table_data =
     (if table_data = [] then Inr {}
      else
        (let our_prefixes = map fst (filter (\<lambda>(prefix, asn). asn = target_asn) table_data)
         in case collect_networks our_prefixes {} of
              Inl e \<Rightarrow> Inl e
            | Inr our_networks \<Rightarrow> scan_table target_asn our_networks table_data {}))"

subsection \<open>Notions used to state the properties of the related-ASN search\<close>

text \<open>A table whose keys are all prefix strings, as the annotation \<open>Dict[str, int]\<close> has it.\<close>

definition str_table :: "(string \<times> int) list \<Rightarrow> route_table" where
  "str_table tbl = map (\<lambda>(prefix, asn). (KStr prefix, asn)) tbl"

text \<open>The grouping keys of the prefixes that the target originates.\<close>

definition target_keys :: "int \<Rightarrow> (string \<times> int) list \<Rightarrow> string set" where
  "target_keys target_asn tbl =
     set (List.map_filter
            (\<lambda>(prefix, asn). if asn = target_asn then prefix_key prefix else None) tbl)"

definition sample_table :: "(string \<times> int) list" where
  "sample_table =
     [(''1.2.3.0/24'', 64500), (''1.2.4.0/24'', 64500), (''1.2.9.0/24'', 64512),
      (''8.8.8.0/24'', 15169), (''1.2.77.0/25'', 7)]"

section \<open>write_results\<close>

text \<open>
  The report files. The clock is read three times: once for the stamp in the file
  names and once for the first line of each file; the three texts are arguments. The
  dictionary \<open>asn_names\<close> is only looked up, so it is a map. Opening and writing a file
  are taken to succeed; an exception can still come from \<open>str\<close> inside an f-string.
\<close>

text \<open>The two \<open>f.write\<close> calls for one ASN. The default \<open>f'AS{asn}'\<close> of \<open>asn_names.get\<close> is
  evaluated before the lookup, so a failing \<open>str\<close> raises before anything is written.\<close>

definition report_entry :: "(int \<rightharpoonup> string) \<Rightarrow> int \<Rightarrow> py_error + string" where
  "report_entry asn_names asn =
     (case py_str asn of
        Inl e \<Rightarrow> Inl e
      | Inr asn_text \<Rightarrow>
          (let name = (case asn_names asn of Some n \<Rightarrow> n | None \<Rightarrow> ''AS'' @ asn_text);
               whois_link = ''https://bgp.tools/as/'' @ asn_text @ ''#whois''
           in Inr (''AS'' @ asn_text @ '' - '' @ name @ ''\<newline>''
                   @ ''  BGP.Tools: '' @ whois_link @ ''\<newline>\<newline>'')))"

text \<open>What has been written to a file, and the exception that ended the writing.\<close>

type_synonym file_writes = "string \<times> py_error option"

definition after_text :: "string \<Rightarrow> file_writes \<Rightarrow> file_writes" where
  "after_text t w = (t @ fst w, snd w)"

text \<open>The loop \<open>for asn in sorted(...)\<close>.\<close>

fun write_entries :: "(int \<rightharpoonup> string) \<Rightarrow> int list \<Rightarrow> file_writes" where
  "write_entries asn_names [] = ([], None)"
| "write_entries asn_names (asn # rest) =
     (case report_entry asn_names asn of
        Inl e \<Rightarrow> ([], Some e)
      | Inr entry \<Rightarrow> after_text entry (write_entries asn_names rest))"

text \<open>The body of one \<open>with open(...)\<close> block: the four opening lines, the total, the
  entries in ascending order.\<close>

definition write_report :: "string \<Rightarrow> (int \<rightharpoonup> string) \<Rightarrow> int set \<Rightarrow> file_writes" where
  "write_report opening asn_names asns =
     (case py_str (int (card asns)) of
        Inl e \<Rightarrow> (opening, Some e)
      | Inr n_listed \<Rightarrow>
          after_text (opening @ ''Total: '' @ n_listed @ ''\<newline>\<newline>'')
            (write_entries asn_names (sorted_list_of_set asns)))"

definition peers_opening :: "string \<Rightarrow> string \<Rightarrow> string" where
  "peers_opening target_text now =
     ''# BGP.Tools Potential Peers Analysis - '' @ now @ ''\<newline>''
     @ ''# ASNs that might peer with AS'' @ target_text @ ''\<newline>''
     @ ''# NOTE: This is based on heuristic analysis, not actual peering data\<newline>\<newline>''
     @ ''=== POTENTIAL PEERS ===\<newline>''"

definition other_opening :: "string \<Rightarrow> string \<Rightarrow> string" where
  "other_opening target_text now =
     ''# BGP.Tools Other ASNs Analysis - '' @ now @ ''\<newline>''
     @ ''# ASNs in similar IP space as AS'' @ target_text @ ''\<newline>''
     @ ''# NOTE: This is based on heuristic analysis\<newline>\<newline>''
     @ ''=== OTHER ASNs ===\<newline>''"

text \<open>The files left on disk, each with its name and content, and the exception raised,
  if any. The second file is opened only after the first one is complete.\<close>

record write_outcome =
  written :: "(string \<times> string) list"
  raised :: "py_error option"

definition write_results ::
  "int \<Rightarrow> int set \<Rightarrow> int set \<Rightarrow> (int \<rightharpoonup> string) \<Rightarrow> string \<Rightarrow> string \<Rightarrow> string
     \<Rightarrow> write_outcome" where
  "write_results target_asn peers non_peers asn_names stamp now_a now_b =
     (case py_str target_asn of
        Inl e \<Rightarrow> \<lparr>written = [], raised = Some e\<rparr>
      | Inr target_text \<Rightarrow>
          (let peers_filename = ''AS'' @ target_text @ ''_potential_peers_'' @ stamp @ ''.txt'';
               peers_file = write_report (peers_opening target_text now_a) asn_names peers
           in case snd peers_file of
                Some e \<Rightarrow> \<lparr>written = [(peers_filename, fst peers_file)], raised = Some e\<rparr>
              | None \<Rightarrow>
                  (let non_peers_filename =
                         ''AS'' @ target_text @ ''_other_asns_'' @ stamp @ ''.txt'';
                       non_peers_file =
                         write_report (other_opening target_text now_b) asn_names non_peers
                   in \<lparr>written = [(peers_filename, fst peers_file),
                                  (non_peers_filename, fst non_peers_file)],
                       raised = snd non_peers_file\<rparr>)))"

subsection \<open>Notions used to state the properties of the reports\<close>

text \<open>The block of one ASN in a report: its number, its display name, its link.\<close>

definition entry_text :: "string \<Rightarrow> string \<Rightarrow> string" where
  "entry_text number name =
     ''AS'' @ number @ '' - '' @ name @ ''\<newline>''
     @ ''  BGP.Tools: https://bgp.tools/as/'' @ number @ ''#whois\<newline>\<newline>''"

text \<open>The display name: the name from the mapping, or the label made of \<open>AS\<close> and the
  number when the ASN is absent from it.\<close>

definition display_name :: "(int \<rightharpoonup> string) \<Rightarrow> int \<Rightarrow> string" where
  "display_name asn_names asn =
     (case asn_names asn of Some n \<Rightarrow> n | None \<Rightarrow> ''AS'' @ int_text asn)"

definition sample_names :: "int \<rightharpoonup> string" where
  "sample_names = [7 \<mapsto> ''Seven Net'', 64512 \<mapsto> ''Example Net'']"

section \<open>get_user_input\<close>

text \<open>
  \<open>s.upper()\<close>, as the list of the code points of its result: the upper case of a
  character may lie outside Latin-1 (\<open>0xB5\<close>, \<open>0xFF\<close>) or be two characters (\<open>0xDF\<close>).
\<close>

definition upper_codes :: "char \<Rightarrow> nat list" where
  "upper_codes c =
     (let n = (of_char c :: nat) in
      if 97 \<le> n \<and> n \<le> 122 then [n - 32]
      else if n = 181 then [924]
      else if n = 223 then [83, 83]
      else if (224 \<le> n \<and> n \<le> 246) \<or> (248 \<le> n \<and> n \<le> 254) then [n - 32]
      else if n = 255 then [376]
      else [n])"

definition upper :: "string \<Rightarrow> nat list" where
  "upper s = concat (map upper_codes s)"

text \<open>\<open>t.startswith('AS')\<close> on the code points of \<open>t\<close>\<close>

definition startswith_AS :: "nat list \<Rightarrow> bool" where
  "startswith_AS t = (take 2 t = [65, 83])"

text \<open>The result of one pass through a prompt loop: the value that leaves the loop, or
  the message printed before the next pass.\<close>

datatype 'a prompt = Accepted 'a | Again string

text \<open>One pass of the ASN loop of \<open>get_user_input\<close>, for the line that \<open>input\<close> returned.\<close>

definition prompt_asn :: "string \<Rightarrow> int prompt" where
  "prompt_asn raw =
     (let asn_input = strip raw in
      if asn_input = [] then Again ''ASN cannot be empty. Please try again.''
      else
        (let asn_input2 =
               (if startswith_AS (upper asn_input) then drop 2 asn_input else asn_input)
         in case py_int asn_input2 of
              Inl e \<Rightarrow> Again ''Invalid ASN format. Please enter a numeric ASN.''
            | Inr asn \<Rightarrow>
                if asn \<le> 0 \<or> asn > 4294967295
                then Again ''ASN must be between 1 and 4294967295. Please try again.''
                else Accepted asn))"

text \<open>One pass of the User-Agent loop.\<close>

definition prompt_user_agent :: "string \<Rightarrow> string prompt" where
  "prompt_user_agent raw =
     (let user_agent = strip raw in
      if user_agent = [] then Again ''User-Agent cannot be empty. Please try again.''
      else if CHR ''@'' \<notin> set user_agent
      then Again ''User-Agent should include an email address for contact. Please try again.''
      else Accepted user_agent)"

text \<open>A prompt loop over the lines that standard input still holds; \<open>input\<close> raises
  \<open>EOFError\<close> when there is none left, and nothing in \<open>get_user_input\<close> handles it. The
  result carries the lines not yet read.\<close>

fun prompt_loop :: "(string \<Rightarrow> 'a prompt) \<Rightarrow> string list \<Rightarrow> py_error + ('a \<times> string list)" where
  "prompt_loop body [] = Inl EOFError"
| "prompt_loop body (raw # rest) =
     (case body raw of Accepted v \<Rightarrow> Inr (v, rest) | Again msg \<Rightarrow> prompt_loop body rest)"

definition get_user_input :: "string list \<Rightarrow> py_error + (int \<times> string)" where
  "get_user_input stdin =
     (case prompt_loop prompt_asn stdin of
        Inl e \<Rightarrow> Inl e
      | Inr (asn, rest) \<Rightarrow>
          (case prompt_loop prompt_user_agent rest of
             Inl e \<Rightarrow> Inl e
           | Inr (user_agent, rest2) \<Rightarrow> Inr (asn, user_agent)))"

section \<open>download_table\<close>

text \<open>
  What \<open>requests.get\<close> followed by \<open>raise_for_status\<close> gives: an exception, or the text
  of the response.
\<close>

datatype http_reply = HttpError | HttpOk string

text \<open>
  \<open>json.loads\<close> is library code; the decoder is a parameter \<open>loads\<close> of the model, giving
  for a line the decoded value or the exception raised (\<open>JSONDecodeError\<close> for text that
  is not JSON). A decoded object is the list of its items, one for each key.
\<close>

type_synonym json_loads = "string \<Rightarrow> py_error + json"

text \<open>Truth value of a decoded value, as \<open>if cidr and asn\<close> tests it.\<close>

fun truthy :: "json \<Rightarrow> bool" where
  "truthy JNull = False"
| "truthy (JBool b) = b"
| "truthy (JInt n) = (n \<noteq> 0)"
| "truthy (JFloat x) = (x \<noteq> Finite 0)"
| "truthy (JStr s) = (s \<noteq> [])"
| "truthy (JList xs) = (xs \<noteq> [])"
| "truthy (JDict items) = (items \<noteq> [])"

text \<open>\<open>data.get(key)\<close> on a \<open>dict\<close>: \<open>None\<close> when the key is absent.\<close>

definition dict_get :: "(string \<times> json) list \<Rightarrow> string \<Rightarrow> json" where
  "dict_get items key = (case map_of items key of None \<Rightarrow> JNull | Some v \<Rightarrow> v)"

text \<open>\<open>int(x)\<close> for a finite float: truncation towards zero.\<close>

definition truncate_rat :: "rat \<Rightarrow> int" where
  "truncate_rat r = (if 0 \<le> r then \<lfloor>r\<rfloor> else \<lceil>r\<rceil>)"

text \<open>\<open>int(asn)\<close> for a decoded value.\<close>

fun int_of_json :: "json \<Rightarrow> py_error + int" where
  "int_of_json JNull = Inl TypeError"
| "int_of_json (JBool b) = Inr (if b then 1 else 0)"
| "int_of_json (JInt n) = Inr n"
| "int_of_json (JFloat (Finite r)) = Inr (truncate_rat r)"
| "int_of_json (JFloat PosInf) = Inl OverflowError"
| "int_of_json (JFloat NegInf) = Inl OverflowError"
| "int_of_json (JFloat NaN) = Inl ValueError"
| "int_of_json (JStr s) = py_int s"
| "int_of_json (JList xs) = Inl TypeError"
| "int_of_json (JDict items) = Inl TypeError"

text \<open>The decoded value as a dictionary key; lists and dictionaries are unhashable.\<close>

fun key_of_json :: "json \<Rightarrow> py_error + py_key" where
  "key_of_json JNull = Inr KNone"
| "key_of_json (JBool b) = Inr (KNum (Finite (if b then 1 else 0)))"
| "key_of_json (JInt n) = Inr (KNum (Finite (of_int n)))"
| "key_of_json (JFloat x) = Inr (KNum x)"
| "key_of_json (JStr s) = Inr (KStr s)"
| "key_of_json (JList xs) = Inl TypeError"
| "key_of_json (JDict items) = Inl TypeError"

text \<open>Whether a key already in the dictionary is the key looked up; a decoded \<open>NaN\<close> is a
  fresh object that equals no key.\<close>

definition same_key :: "py_key \<Rightarrow> py_key \<Rightarrow> bool" where
  "same_key k' k = (k' = k \<and> k \<noteq> KNum NaN)"

text \<open>\<open>prefix_to_asn[k] = v\<close>: an existing key keeps its place and takes the new value, a
  new key goes last.\<close>

fun dict_set :: "py_key \<Rightarrow> int \<Rightarrow> route_table \<Rightarrow> route_table" where
  "dict_set k v [] = [(k, v)]"
| "dict_set k v ((k', v') # rest) =
     (if same_key k' k then (k', v) # rest else (k', v') # dict_set k v rest)"

text \<open>
  The statements inside the inner \<open>try\<close>, for one non-blank line; the state is the pair
  \<open>(prefix_to_asn, line_count)\<close>. \<open>data.get\<close> exists on a \<open>dict\<close> only; the right-hand
  side \<open>int(asn)\<close> is evaluated before the key is hashed.
\<close>

definition table_line_body ::
  "json_loads \<Rightarrow> string \<Rightarrow> route_table \<times> nat \<Rightarrow> py_error + route_table \<times> nat" where
  "table_line_body loads line st =
     (case loads line of
        Inl e \<Rightarrow> Inl e
      | Inr data \<Rightarrow>
          (case data of
             JDict items \<Rightarrow>
               (let cidr = dict_get items ''CIDR'';
                    asn = dict_get items ''ASN''
                in if truthy cidr \<and> truthy asn then
                     (case int_of_json asn of
                        Inl e \<Rightarrow> Inl e
                      | Inr v \<Rightarrow>
                          (case key_of_json cidr of
                             Inl e \<Rightarrow> Inl e
                           | Inr k \<Rightarrow> Inr (dict_set k v (fst st), snd st + 1)))
                   else Inr st)
           | _ \<Rightarrow> Inl AttributeError))"

text \<open>One pass of the loop: blank lines are passed over, and the inner handler
  \<open>except json.JSONDecodeError: continue\<close> catches that exception and no other.\<close>

definition table_line ::
  "json_loads \<Rightarrow> string \<Rightarrow> route_table \<times> nat \<Rightarrow> py_error + route_table \<times> nat" where
  "table_line loads line st =
     (if strip line \<noteq> [] then
        (case table_line_body loads line st of
           Inl e \<Rightarrow> if e = JSONDecodeError then Inr st else Inl e
         | Inr st' \<Rightarrow> Inr st')
      else Inr st)"

fun parse_table ::
  "json_loads \<Rightarrow> string list \<Rightarrow> route_table \<times> nat \<Rightarrow> py_error + route_table \<times> nat" where
  "parse_table loads [] st = Inr st"
| "parse_table loads (line # rest) st =
     (case table_line loads line st of
        Inl e \<Rightarrow> Inl e
      | Inr st' \<Rightarrow> parse_table loads rest st')"

text \<open>\<open>download_table\<close>: the outer handler \<open>except Exception\<close> turns every exception,
  of the request or of the loop, into the empty dictionary.\<close>

definition download_table :: "json_loads \<Rightarrow> http_reply \<Rightarrow> route_table" where
  "download_table loads reply =
     (case reply of
        HttpError \<Rightarrow> []
      | HttpOk body \<Rightarrow>
          (case parse_table loads (split CHR ''\<newline>'' (strip body)) ([], 0) of
             Inl e \<Rightarrow> []
           | Inr st \<Rightarrow> fst st))"

section \<open>download_asn_names and get_asn_info\<close>

text \<open>The body of the loop of \<open>download_asn_names\<close>; a \<open>ValueError\<close> from \<open>int\<close> skips the
  line.\<close>

definition names_line :: "(int \<rightharpoonup> string) \<Rightarrow> string \<Rightarrow> (int \<rightharpoonup> string)" where
  "names_line asn_names line =
     (if strip line \<noteq> [] then
        (let parts = splitn 2 CHR '','' line in
         if 2 \<le> length parts then
           (let asn_str = strip (parts ! 0);
                name = strip_with (\<lambda>c. c = CHR 0x22) (strip (parts ! 1))
            in if take 2 asn_str = ''AS'' then
                 (case py_int (drop 2 asn_str) of
                    Inl e \<Rightarrow> asn_names
                  | Inr asn_num \<Rightarrow> asn_names(asn_num \<mapsto> name))
               else asn_names)
         else asn_names)
      else asn_names)"

text \<open>\<open>download_asn_names\<close>: the first line is the header; a failed request gives the empty
  dictionary.\<close>

definition download_asn_names :: "http_reply \<Rightarrow> (int \<rightharpoonup> string)" where
  "download_asn_names reply =
     (case reply of
        HttpError \<Rightarrow> Map.empty
      | HttpOk body \<Rightarrow> foldl names_line Map.empty (tl (split CHR ''\<newline>'' (strip body))))"

text \<open>The loop of \<open>get_asn_info\<close> over the lines of the whois reply: the name of the
  first record whose ASN field is the text of the target's number.\<close>

fun find_asn_name :: "string \<Rightarrow> string list \<Rightarrow> string option" where
  "find_asn_name target_text [] = None"
| "find_asn_name target_text (line # rest) =
     (if strip line \<noteq> [] then
        (let parts = split CHR ''|'' line in
         if 7 \<le> length parts then
           (let asn = strip (parts ! 0);
                name = strip (parts ! 6)
            in if asn = target_text then Some name
               else find_asn_name target_text rest)
         else find_asn_name target_text rest)
      else find_asn_name target_text rest)"

text \<open>\<open>get_asn_info\<close>, reduced to the \<open>name\<close> entry of the dictionary it returns. The
  argument \<open>whois\<close> gives the text that \<open>whois_query\<close> returns for a query (empty on a
  socket error); the first f-string already needs the text of the target's number.\<close>

definition get_asn_info :: "int \<Rightarrow> (string \<Rightarrow> string) \<Rightarrow> py_error + string" where
  "get_asn_info target_asn whois =
     (case py_str target_asn of
        Inl e \<Rightarrow> Inl e
      | Inr target_text \<Rightarrow>
          (let result = whois (''as'' @ target_text) in
           if result \<noteq> [] then
             (case find_asn_name target_text (split CHR ''\<newline>'' (strip result)) of
                Some name \<Rightarrow> Inr name
              | None \<Rightarrow> Inr (''AS'' @ target_text))
           else Inr (''AS'' @ target_text)))"

section \<open>run_analysis and main\<close>

text \<open>The fields of the analyzer object that the methods read.\<close>

record analyzer =
  target_asn :: int
  user_agent :: string
  debug_level :: int

text \<open>
  Everything a run receives from outside: the replies of the whois service and of the
  two downloads, the JSON decoder, the order in which \<open>list\<close> enumerates a set, the
  texts of the clock readings, and the texts of an exception and of its traceback.
\<close>

record world =
  w_whois_reply :: "string \<Rightarrow> string"
  w_names_reply :: http_reply
  w_table_reply :: http_reply
  w_bulk_reply :: bulk_whois
  w_loads :: json_loads
  w_list_of_set :: "int set \<Rightarrow> int list"
  w_started :: string
  w_timestamp :: string
  w_now_peers :: string
  w_now_other :: string
  w_exception_text :: "py_error \<Rightarrow> string"
  w_traceback_text :: "py_error \<Rightarrow> string"

text \<open>A call \<open>self.log(message, level)\<close> is recorded as the pair of its level and message.
  It prints when the level does not exceed \<open>debug_level\<close>: the clock in brackets, then the
  indented message, which is what \<open>printed\<close> keeps of the line.\<close>

type_synonym log_call = "int \<times> string"

definition printed :: "analyzer \<Rightarrow> log_call list \<Rightarrow> string list" where
  "printed self calls =
     map (\<lambda>(level, message). concat (replicate (nat (level - 1)) ''  '') @ message)
       (filter (\<lambda>(level, message). level \<le> debug_level self) calls)"

text \<open>\<open>s.center(width)\<close>\<close>

definition center :: "nat \<Rightarrow> string \<Rightarrow> string" where
  "center width s =
     (if width \<le> length s then s
      else
        (let marg = width - length s;
             left = marg div 2 + (if odd marg \<and> odd width then 1 else 0)
         in replicate left CHR '' '' @ s @ replicate (marg - left) CHR '' ''))"

definition log_separator :: "analyzer \<Rightarrow> string \<Rightarrow> int \<Rightarrow> log_call list" where
  "log_separator self title level =
     (if level \<le> debug_level self
      then [(level, replicate 80 CHR ''=''), (level, center 80 title),
            (level, replicate 80 CHR ''='')]
      else [])"

text \<open>How \<open>run_analysis\<close> ends: it returns, it calls \<open>sys.exit\<close>, or an exception leaves it.\<close>

datatype run_status = Returned | SysExit int | Raised py_error

text \<open>What a run of \<open>run_analysis\<close> leaves behind: the log calls made by \<open>run_analysis\<close>
  itself, in order (the diagnostics logged inside the helper methods are not traced),
  the files written, and how the method ended.\<close>

record run_result =
  log_calls :: "log_call list"
  files :: "(string \<times> string) list"
  status :: run_status

text \<open>The log calls made before the rest of the run.\<close>

definition logged :: "log_call list \<Rightarrow> run_result \<Rightarrow> run_result" where
  "logged calls r = r\<lparr>log_calls := calls @ log_calls r\<rparr>"

text \<open>The handler \<open>except Exception as e\<close> of \<open>run_analysis\<close>; \<open>left\<close> are the files written
  before the exception.\<close>

definition analysis_failed :: "world \<Rightarrow> (string \<times> string) list \<Rightarrow> py_error \<Rightarrow> run_result" where
  "analysis_failed w left e =
     \<lparr>log_calls = [(1, ''ERROR during analysis: '' @ w_exception_text w e),
                   (2, ''Traceback: '' @ w_traceback_text w e)],
      files = left, status = SysExit 1\<rparr>"

text \<open>\<open>len(s)\<close> inside an f-string: the length of a container is a machine integer, whose
  text \<open>str\<close> always gives.\<close>

definition len_text :: "nat \<Rightarrow> string" where
  "len_text n = int_text (int n)"

text \<open>The log calls under \<open># Final summary\<close>.\<close>

definition final_summary ::
  "analyzer \<Rightarrow> string \<Rightarrow> string \<Rightarrow> nat \<Rightarrow> nat \<Rightarrow> nat \<Rightarrow> log_call list" where
  "final_summary self target_text asn_name n_related n_peers n_other =
     log_separator self ''FINAL SUMMARY'' 1
     @ [(1, ''Target ASN: AS'' @ target_text @ '' - '' @ asn_name),
        (1, ''Related ASNs found: '' @ len_text n_related),
        (1, ''Potential peers: '' @ len_text n_peers),
        (1, ''Other ASNs: '' @ len_text n_other),
        (1, ''Analysis completed successfully!''),
        (1, ''NOTE: This analysis is based on heuristics and BGP table data.''),
        (1, ''For accurate peering information, use PeeringDB or direct BGP data.'')]"

text \<open>
  The body of the \<open>try\<close> of \<open>run_analysis\<close>; \<open>target_text\<close> is the text of the target's
  number, which the head of the method has formatted already. Every exception raised
  inside reaches the handler.
\<close>

definition analysis_steps :: "analyzer \<Rightarrow> world \<Rightarrow> string \<Rightarrow> run_result" where
  "analysis_steps self w target_text =
     logged [(1, ''STEP 1: Getting ASN information'')]
       (case get_asn_info (target_asn self) (w_whois_reply w) of
          Inl e \<Rightarrow> analysis_failed w [] e
        | Inr asn_name \<Rightarrow>
            logged [(1, ''STEP 2: Downloading ASN names''),
                    (1, ''STEP 3: Finding related ASNs'')]
              (let asn_names = download_asn_names (w_names_reply w) in
               case get_related_asns (target_asn self)
                      (download_table (w_loads w) (w_table_reply w)) of
                 Inl e \<Rightarrow> analysis_failed w [] e
               | Inr related_asns \<Rightarrow>
                   if related_asns = {} then
                     \<lparr>log_calls = [(1, ''No related ASNs found'')], files = [],
                      status = Returned\<rparr>
                   else
                     logged [(1, ''STEP 4: Analyzing ASN relationships'')]
                       (case analyze_asn_relationships (w_bulk_reply w) (target_asn self)
                               (w_list_of_set w related_asns) of
                          Inl e \<Rightarrow> analysis_failed w [] e
                        | Inr (potential_peers, other_asns) \<Rightarrow>
                            logged [(1, ''STEP 5: Writing results'')]
                              (let out = write_results (target_asn self) potential_peers
                                           other_asns asn_names (w_timestamp w)
                                           (w_now_peers w) (w_now_other w)
                               in case raised out of
                                    Some e \<Rightarrow> analysis_failed w (written out) e
                                  | None \<Rightarrow>
                                      \<lparr>log_calls =
                                         final_summary self target_text asn_name
                                           (card related_asns) (card potential_peers)
                                           (card other_asns),
                                       files = written out, status = Returned\<rparr>))))"

text \<open>
  \<open>run_analysis\<close>. The log calls at its head lie outside the \<open>try\<close>: an exception of \<open>str\<close>
  in one of their f-strings leaves the method.
\<close>

definition run_analysis :: "analyzer \<Rightarrow> world \<Rightarrow> run_result" where
  "run_analysis self w =
     logged (log_separator self ''BGP.TOOLS PEERING ANALYSIS'' 1
             @ [(1, ''Analysis started at: '' @ w_started w)])
       (case py_str (target_asn self) of
          Inl e \<Rightarrow> \<lparr>log_calls = [], files = [], status = Raised e\<rparr>
        | Inr target_text \<Rightarrow>
            logged [(1, ''Target ASN: AS'' @ target_text),
                    (1, ''User Agent: '' @ user_agent self)]
              (case py_str (debug_level self) of
                 Inl e \<Rightarrow> \<lparr>log_calls = [], files = [], status = Raised e\<rparr>
               | Inr level_text \<Rightarrow>
                   logged [(1, ''Debug level: '' @ level_text)]
                     (analysis_steps self w target_text)))"

text \<open>The command line after \<open>argparse\<close>: \<open>--asn\<close> and \<open>--useragent\<close> may be absent.\<close>

record args =
  arg_asn :: "int option"
  arg_useragent :: "string option"
  arg_debug :: int

text \<open>How \<open>main\<close> ends: by falling off its end, at one of its three \<open>sys.exit(1)\<close> calls,
  at the \<open>sys.exit\<close> call inside \<open>run_analysis\<close>, or by an exception nobody handles.\<close>

datatype outcome =
    Finished | InvalidASN | InvalidUserAgent | NoConnectivity | AnalysisExit int
  | Uncaught py_error

text \<open>The exit status of the process.\<close>

fun exit_code :: "outcome \<Rightarrow> int" where
  "exit_code Finished = 0"
| "exit_code InvalidASN = 1"
| "exit_code InvalidUserAgent = 1"
| "exit_code NoConnectivity = 1"
| "exit_code (AnalysisExit c) = c"
| "exit_code (Uncaught e) = 1"

text \<open>The target and the User-Agent: from the flags when both are given, else from the
  prompts, where \<open>stdin\<close> holds the lines typed.\<close>

definition chosen_input :: "args \<Rightarrow> string list \<Rightarrow> py_error + (int \<times> string)" where
  "chosen_input a stdin =
     (case (arg_asn a, arg_useragent a) of
        (Some n, Some u) \<Rightarrow> Inr (n, u)
      | _ \<Rightarrow> get_user_input stdin)"

text \<open>The block \<open># Validate ASN\<close> of \<open>main\<close>: nothing when the check passes, else how the
  process ends; the message printed needs the text of the number.\<close>

definition check_asn :: "int \<Rightarrow> outcome option" where
  "check_asn target =
     (if target \<le> 0 \<or> target > 4294967295
      then (case py_str target of Inl e \<Rightarrow> Some (Uncaught e) | Inr t \<Rightarrow> Some InvalidASN)
      else None)"

text \<open>The block \<open># Validate User Agent\<close>.\<close>

definition check_user_agent :: "string \<Rightarrow> outcome option" where
  "check_user_agent agent =
     (if agent = [] \<or> CHR ''@'' \<notin> set agent then Some InvalidUserAgent else None)"

text \<open>
  \<open>main\<close>: \<open>probe_ok\<close> tells whether the connectivity request returned without a
  \<open>RequestException\<close>. The result is the outcome together with the result of the
  analysis when it was started. What \<open>main\<close> itself prints is not recorded.
\<close>

definition main :: "args \<Rightarrow> string list \<Rightarrow> bool \<Rightarrow> world \<Rightarrow> outcome \<times> run_result option" where
  "main a stdin probe_ok w =
     (case chosen_input a stdin of
        Inl e \<Rightarrow> (Uncaught e, None)
      | Inr (target, agent) \<Rightarrow>
          (case check_asn target of
             Some out \<Rightarrow> (out, None)
           | None \<Rightarrow>
               (case check_user_agent agent of
                  Some out \<Rightarrow> (out, None)
                | None \<Rightarrow>
                    if \<not> probe_ok then (NoConnectivity, None)
                    else
                      (let r = run_analysis
                                 \<lparr>target_asn = target, user_agent = agent,
                                  debug_level = arg_debug a\<rparr> w
                       in case status r of
                            Returned \<Rightarrow> (Finished, Some r)
                          | SysExit c \<Rightarrow> (AnalysisExit c, Some r)
                          | Raised e \<Rightarrow> (Uncaught e, Some r)))))"

text \<open>A world in which every request fails, and a command line with both flags.\<close>

definition sample_world :: world where
  "sample_world =
     \<lparr>w_whois_reply = (\<lambda>q. []), w_names_reply = HttpError, w_table_reply = HttpError,
      w_bulk_reply = sample_bulk_a, w_loads = (\<lambda>s. Inl JSONDecodeError),
      w_list_of_set = sorted_list_of_set, w_started = ''2024-01-01 00:00:00.000000'',
      w_timestamp = ''20240101_000000'', w_now_peers = ''2024-01-01 00:00:01.000000'',
      w_now_other = ''2024-01-01 00:00:01.000100'',
      w_exception_text = (\<lambda>e. []), w_traceback_text = (\<lambda>e. [])\<rparr>"

definition sample_args :: args where
  "sample_args =
     \<lparr>arg_asn = Some 64500, arg_useragent = Some ''tool - ops@example.net'', arg_debug = 2\<rparr>"

subsection \<open>Notions and samples used to state the properties of the table download\<close>

text \<open>The lines that the loop of \<open>download_table\<close> visits.\<close>

definition table_lines :: "http_reply \<Rightarrow> string list" where
  "table_lines reply =
     (case reply of HttpError \<Rightarrow> [] | HttpOk body \<Rightarrow> split CHR ''\<newline>'' (strip body))"

text \<open>A decoded value that is a string or a float.\<close>

fun text_or_float :: "json \<Rightarrow> bool" where
  "text_or_float (JStr s) = True"
| "text_or_float (JFloat x) = True"
| "text_or_float j = False"

text \<open>Lines of a table: a record, a record whose ASN is no number, a record whose ASN is
  the text of zero, a record with ASN zero, a record with an empty prefix, a line cut
  short and a line that is JSON but no object.\<close>

definition line_record :: string where
  \<open>line_record = ''{"CIDR": "192.0.2.0/24", "ASN": 64500}''\<close>

definition line_text_asn :: string where
  \<open>line_text_asn = ''{"CIDR": "198.51.100.0/24", "ASN": "n/a"}''\<close>

definition line_zero_text :: string where
  \<open>line_zero_text = ''{"CIDR": "10.0.0.0/8", "ASN": "0"}''\<close>

definition line_zero :: string where
  \<open>line_zero = ''{"CIDR": "203.0.113.0/24", "ASN": 0}''\<close>

definition line_empty_prefix :: string where
  \<open>line_empty_prefix = ''{"CIDR": "", "ASN": 64501}''\<close>

definition line_cut :: string where
  \<open>line_cut = ''{"CIDR": "198.51.100.0/24", "AS''\<close>

definition line_list :: string where
  \<open>line_list = ''[]''\<close>

text \<open>What \<open>json.loads\<close> gives on these lines; \<open>line_cut\<close> is among the texts it refuses.\<close>

definition sample_loads :: json_loads where
  "sample_loads line =
     (if line = line_record
      then Inr (JDict [(''CIDR'', JStr ''192.0.2.0/24''), (''ASN'', JInt 64500)])
      else if line = line_text_asn
      then Inr (JDict [(''CIDR'', JStr ''198.51.100.0/24''), (''ASN'', JStr ''n/a'')])
      else if line = line_zero_text
      then Inr (JDict [(''CIDR'', JStr ''10.0.0.0/8''), (''ASN'', JStr ''0'')])
      else if line = line_zero
      then Inr (JDict [(''CIDR'', JStr ''203.0.113.0/24''), (''ASN'', JInt 0)])
      else if line = line_empty_prefix
      then Inr (JDict [(''CIDR'', JStr ''''), (''ASN'', JInt 64501)])
      else if line = line_list
      then Inr (JList [])
      else Inl JSONDecodeError)"

text \<open>Bodies of a table download: the record followed by one more line.\<close>

definition table_with_cut_line :: string where
  "table_with_cut_line = line_record @ ''\<newline>'' @ line_cut"

definition table_with_text_asn :: string where
  "table_with_text_asn = line_record @ ''\<newline>'' @ line_text_asn"

definition table_with_list_line :: string where
  "table_with_list_line = line_record @ ''\<newline>'' @ line_list"

definition table_with_dropped_records :: string where
  "table_with_dropped_records =
     line_record @ ''\<newline>'' @ line_zero @ ''\<newline>'' @ line_empty_prefix"

text \<open>A names download whose last line has no number after \<open>AS\<close>.\<close>

definition names_with_text_asn :: string where
  \<open>names_with_text_asn =
     ''asn,name,class,cc\<newline>AS64500,"Example Net",Unknown,ZZ\<newline>ASn/a,"Broken",Unknown,ZZ''\<close>

section \<open>Properties\<close>

subsection \<open>Text helpers\<close>

lemma split_nonempty: "split sep s \<noteq> []"
  by (induction s) (auto simp: push_char_def)

lemma split_no_sep: "sep \<notin> set s \<Longrightarrow> split sep s = [s]"
  by (induction s) (auto simp: push_char_def)

lemma digit_chars:
  "char_of (48::nat) = CHR ''0''" "char_of (49::nat) = CHR ''1''" "char_of (50::nat) = CHR ''2''"
  "char_of (51::nat) = CHR ''3''" "char_of (52::nat) = CHR ''4''" "char_of (53::nat) = CHR ''5''"
  "char_of (54::nat) = CHR ''6''" "char_of (55::nat) = CHR ''7''" "char_of (56::nat) = CHR ''8''"
  "char_of (57::nat) = CHR ''9''"
  by (simp_all add: char_of_eq_iff)

lemma split_length_ge2: "2 \<le> length (split sep s) \<Longrightarrow> sep \<in> set s"
  using split_no_sep [of sep s] by (cases "sep \<in> set s") auto

lemma in_dropWhile: "c \<in> set s \<Longrightarrow> \<not> p c \<Longrightarrow> c \<in> set (dropWhile p s)"
  by (induction s) auto

lemma strip_with_nonempty:
  assumes "c \<in> set s" and "\<not> p c"
  shows "strip_with p s \<noteq> []"
proof -
  have "c \<in> set (rev (dropWhile p s))"
    using assms by (simp add: in_dropWhile)
  then have "c \<in> set (dropWhile p (rev (dropWhile p s)))"
    using assms(2) by (rule in_dropWhile)
  then have "dropWhile p (rev (dropWhile p s)) \<noteq> []"
    by (metis empty_iff list.set(1))
  then show ?thesis by (simp add: strip_with_def)
qed

lemma pipe_not_space: "\<not> is_space CHR ''|''"
  by (simp add: is_space_def)

lemma record_nonblank:
  assumes "7 \<le> length (split CHR ''|'' line)"
  shows "strip line \<noteq> []"
proof -
  have "CHR ''|'' \<in> set line"
    using assms by (intro split_length_ge2) simp
  then show ?thesis
    unfolding strip_def using pipe_not_space by (rule strip_with_nonempty)
qed

subsection \<open>Integers and their decimal text\<close>

lemma length_digits: "length (digits n) = decimal_digits n"
  by (induction n rule: digits.induct) (subst digits.simps, subst decimal_digits.simps, simp)

lemma length_int_text: "length (int_text a) = text_length a"
  by (auto simp: int_text_def text_length_def length_digits)

lemma decimal_digits_le: "n < 10 ^ k \<Longrightarrow> 1 \<le> k \<Longrightarrow> decimal_digits n \<le> k"
proof (induction n arbitrary: k rule: decimal_digits.induct)
  case (1 n)
  show ?case
  proof (cases "n < 10")
    case True
    then show ?thesis using "1.prems"(2) by (subst decimal_digits.simps) simp
  next
    case False
    obtain j where k: "k = Suc j" using "1.prems"(2) by (cases k) auto
    have "n div 10 < 10 ^ j" using "1.prems"(1) k by (simp add: less_mult_imp_div_less)
    moreover have "1 \<le> j"
    proof (rule ccontr)
      assume "\<not> 1 \<le> j"
      then have "j = 0" by simp
      with "1.prems"(1) k False show False by simp
    qed
    ultimately have "decimal_digits (n div 10) \<le> j" using "1.IH" False by simp
    then show ?thesis using False k by (subst decimal_digits.simps) simp
  qed
qed

lemma decimal_digits_bounds:
  "n < 10 ^ decimal_digits n \<and> (10 \<le> n \<longrightarrow> 10 ^ (decimal_digits n - 1) \<le> n)"
proof (induction n rule: decimal_digits.induct)
  case (1 n)
  show ?case
  proof (cases "n < 10")
    case True
    then show ?thesis by (subst decimal_digits.simps, subst decimal_digits.simps) simp
  next
    case False
    with 1 have ih: "n div 10 < 10 ^ decimal_digits (n div 10)"
      "10 \<le> n div 10 \<longrightarrow> 10 ^ (decimal_digits (n div 10) - 1) \<le> n div 10" by auto
    have dd: "decimal_digits n = Suc (decimal_digits (n div 10))"
      using False by (subst decimal_digits.simps) simp
    have pos: "0 < decimal_digits (n div 10)" by (subst decimal_digits.simps) simp
    have a: "n < 10 ^ decimal_digits n" using ih(1) dd by simp
    have b: "10 ^ (decimal_digits n - 1) \<le> n"
    proof (cases "10 \<le> n div 10")
      case True
      with ih(2) have "10 ^ (decimal_digits (n div 10) - 1) \<le> n div 10" by simp
      then have "10 * 10 ^ (decimal_digits (n div 10) - 1) \<le> n" by simp
      moreover have "10 * 10 ^ (decimal_digits (n div 10) - 1) = (10::nat) ^ decimal_digits (n div 10)"
        using pos by (cases "decimal_digits (n div 10)") auto
      ultimately show ?thesis using dd by simp
    next
      case F2: False
      then have "decimal_digits (n div 10) = 1" by (subst decimal_digits.simps) simp
      then show ?thesis using dd False by simp
    qed
    from a b show ?thesis by simp
  qed
qed

lemma digit_val_le: "is_digit c \<Longrightarrow> digit_val c \<le> 9"
  by (auto simp: is_digit_def digit_val_def)

lemma foldl_digits_bound:
  "\<forall>c \<in> set ds. is_digit c \<Longrightarrow> acc < 10 ^ k \<Longrightarrow>
     foldl (\<lambda>a c. 10 * a + digit_val c) acc ds < 10 ^ (k + length ds)"
proof (induction ds arbitrary: acc k)
  case Nil
  then show ?case by simp
next
  case (Cons c ds)
  have "digit_val c \<le> 9" using Cons.prems(1) by (simp add: digit_val_le)
  moreover have "10 * acc + 10 \<le> 10 * 10 ^ k" using Cons.prems(2) by simp
  ultimately have "10 * acc + digit_val c < 10 ^ Suc k" by simp
  then have "foldl (\<lambda>a c. 10 * a + digit_val c) (10 * acc + digit_val c) ds
      < 10 ^ (Suc k + length ds)"
    using Cons.prems(1) by (intro Cons.IH) simp_all
  then show ?case by simp
qed

lemma digits_value_bound: "digits_value body < 10 ^ length (filter is_digit body)"
  using foldl_digits_bound [of "filter is_digit body" 0 0]
  by (simp add: digits_value_def)

lemma valid_digits_has_digit: "valid_digits body \<Longrightarrow> filter is_digit body \<noteq> []"
  by (cases body rule: valid_digits.cases) auto

lemma py_int_magnitude:
  assumes "py_int s = Inr a"
  shows "\<exists>body. valid_digits body \<and> length (filter is_digit body) \<le> max_str_digits
           \<and> nat \<bar>a\<bar> = digits_value body"
  using assms by (auto simp: py_int_def Let_def split: if_splits)

lemma py_int_small:
  assumes "py_int s = Inr a"
  shows "length (digits (nat \<bar>a\<bar>)) \<le> max_str_digits"
proof -
  obtain body where b: "valid_digits body" "length (filter is_digit body) \<le> max_str_digits"
    "nat \<bar>a\<bar> = digits_value body"
    using py_int_magnitude [OF assms] by blast
  have "1 \<le> length (filter is_digit body)"
    using valid_digits_has_digit [OF b(1)] by (cases "filter is_digit body") auto
  then have "decimal_digits (digits_value body) \<le> length (filter is_digit body)"
    using digits_value_bound by (intro decimal_digits_le)
  then show ?thesis using b(2,3) by (simp add: length_digits)
qed

lemma py_str_parsed: "py_int s = Inr a \<Longrightarrow> py_str a = Inr (int_text a)"
  using py_int_small [of s a] by (simp add: py_str_def)

lemma py_str_asn_range:
  assumes "0 \<le> t" and "t \<le> 4294967295"
  shows "py_str t = Inr (int_text t)"
proof -
  have "nat \<bar>t\<bar> < 10 ^ 10" using assms by simp
  then have "decimal_digits (nat \<bar>t\<bar>) \<le> 10" by (intro decimal_digits_le) simp_all
  then show ?thesis by (simp add: py_str_def length_digits max_str_digits_def)
qed

lemma py_str_cases:
  "py_str i = (if decimal_digits (nat \<bar>i\<bar>) \<le> 4300 then Inr (int_text i) else Inl ValueError)"
  by (simp add: py_str_def length_digits max_str_digits_def)

lemma decimal_digits_small: "n < 10 ^ 10 \<Longrightarrow> decimal_digits n \<le> 4300"
  using decimal_digits_le [of n 10] by simp

lemma digit_char: "d < 10 \<Longrightarrow> is_digit (char_of (48 + d)) \<and> digit_val (char_of (48 + d)) = d"
  by (simp add: is_digit_def digit_val_def)

lemma digits_nonempty: "digits m \<noteq> []"
  by (subst digits.simps) simp

lemma digits_all_digit: "c \<in> set (digits m) \<Longrightarrow> is_digit c"
proof (induction m arbitrary: c rule: digits.induct)
  case (1 n)
  show ?case
  proof (cases "n < 10")
    case True
    with "1.prems" show ?thesis
      by (subst (asm) digits.simps) (simp add: digit_char)
  next
    case False
    with "1.prems" "1.IH" show ?thesis
      by (subst (asm) digits.simps) (auto simp: digit_char)
  qed
qed

lemma digits_value_snoc:
  "is_digit c \<Longrightarrow> digits_value (s @ [c]) = 10 * digits_value s + digit_val c"
  by (simp add: digits_value_def)

lemma digits_value_digits: "digits_value (digits m) = m"
proof (induction m rule: digits.induct)
  case (1 n)
  show ?case
  proof (cases "n < 10")
    case True
    then show ?thesis
      by (subst digits.simps) (simp add: digits_value_def digit_char)
  next
    case False
    then have "digits_value (digits n) =
                 10 * digits_value (digits (n div 10)) + digit_val (char_of (48 + n mod 10))"
      by (subst digits.simps) (simp add: digits_value_snoc digit_char)
    with False "1.IH" show ?thesis by (simp add: digit_char)
  qed
qed

lemma valid_all_digits: "s \<noteq> [] \<Longrightarrow> \<forall>c \<in> set s. is_digit c \<Longrightarrow> valid_digits s"
  by (induction s rule: valid_digits.induct) (auto simp: is_digit_def)

lemma strip_with_unchanged: "\<forall>c \<in> set s. \<not> p c \<Longrightarrow> strip_with p s = s"
proof -
  have d: "dropWhile p t = t" if "\<forall>c \<in> set t. \<not> p c" for t
    using that by (cases t) auto
  assume a: "\<forall>c \<in> set s. \<not> p c"
  then have "dropWhile p (rev (dropWhile p s)) = rev s"
    by (simp add: d)
  then show ?thesis by (simp add: strip_with_def)
qed

lemma digit_plain:
  "is_digit c \<Longrightarrow> \<not> is_space c \<and> \<not> is_int_space c \<and> c \<noteq> CHR ''-'' \<and> c \<noteq> CHR ''+''"
  by (auto simp: is_digit_def is_space_def is_int_space_def)

lemma py_int_digits:
  "py_int (digits m) =
     (if decimal_digits m \<le> 4300 then Inr (int m) else Inl ValueError)"
proof -
  have s: "strip_with is_int_space (digits m) = digits m"
    by (rule strip_with_unchanged) (simp add: digits_all_digit digit_plain)
  have h: "hd (digits m) \<noteq> CHR ''-''" "hd (digits m) \<noteq> CHR ''+''"
    using digits_nonempty [of m] digits_all_digit [of "hd (digits m)" m] digit_plain
    by auto
  have f: "filter is_digit (digits m) = digits m"
    by (simp add: digits_all_digit)
  have v: "valid_digits (digits m)"
    by (rule valid_all_digits) (simp_all add: digits_nonempty digits_all_digit)
  show ?thesis
    by (simp add: py_int_def s h f v digits_value_digits length_digits max_str_digits_def)
qed

lemma py_int_minus_digits:
  "py_int (CHR ''-'' # digits m) =
     (if decimal_digits m \<le> 4300 then Inr (- int m) else Inl ValueError)"
proof -
  have "\<forall>c \<in> set (CHR ''-'' # digits m). \<not> is_int_space c"
    by (auto simp: digits_all_digit digit_plain) (simp add: is_int_space_def)
  then have s: "strip_with is_int_space (CHR ''-'' # digits m) = CHR ''-'' # digits m"
    by (rule strip_with_unchanged)
  have f: "filter is_digit (digits m) = digits m"
    by (simp add: digits_all_digit)
  have v: "valid_digits (digits m)"
    by (rule valid_all_digits) (simp_all add: digits_nonempty digits_all_digit)
  show ?thesis
    by (simp add: py_int_def s f v digits_value_digits length_digits max_str_digits_def)
qed

lemma py_int_text:
  "py_int (int_text n) =
     (if decimal_digits (nat \<bar>n\<bar>) \<le> 4300 then Inr n else Inl ValueError)"
proof (cases "n < 0")
  case True
  then have "\<bar>n\<bar> = - n" by simp
  with True show ?thesis by (simp add: int_text_def py_int_minus_digits)
next
  case False
  then have "\<bar>n\<bar> = n" by simp
  with False show ?thesis by (simp add: int_text_def py_int_digits)
qed

lemma asn_range_small:
  assumes "1 \<le> n" and "n \<le> 4294967295"
  shows "decimal_digits (nat \<bar>n\<bar>) \<le> 4300"
proof -
  have "nat \<bar>n\<bar> < 10 ^ 10" using assms by simp
  then show ?thesis by (rule decimal_digits_small)
qed

subsection \<open>The parse of the whois replies\<close>

lemma classify_line_record:
  "classify_line T L acc line =
     (case record_asn line of
        None \<Rightarrow> acc
      | Some a \<Rightarrow>
          if a \<in> set L \<and> a \<noteq> T then
            (if listed_as_peer T a then (insert a (fst acc), snd acc)
             else if listed_as_other T a then (fst acc, insert a (snd acc))
             else acc)
          else acc)"
proof (cases "7 \<le> length (split CHR ''|'' line)")
  case False
  then show ?thesis by (simp add: classify_line_def record_asn_def)
next
  case True
  note nb = record_nonblank [OF True]
  show ?thesis
  proof (cases "py_int (strip (split CHR ''|'' line ! 0))")
    case (Inl e)
    then show ?thesis using True nb by (simp add: classify_line_def record_asn_def)
  next
    case (Inr a)
    note ps = py_str_parsed [OF Inr]
    show ?thesis
      using True nb Inr ps
      by (cases "py_str T")
         (auto simp: classify_line_def record_asn_def listed_as_peer_def
            listed_as_other_def)
  qed
qed

lemma listed_exclusive: "\<not> (listed_as_peer T a \<and> listed_as_other T a)"
  by (auto simp: listed_as_peer_def listed_as_other_def split: sum.splits)

lemma foldl_classify_fst:
  "fst (foldl (classify_line T L) acc lines) =
     fst acc \<union> {a \<in> set (List.map_filter record_asn lines).
                  a \<in> set L \<and> a \<noteq> T \<and> listed_as_peer T a}"
  by (induction lines arbitrary: acc)
     (auto simp: classify_line_record List.map_filter_simps split: option.splits)

lemma foldl_classify_snd:
  "snd (foldl (classify_line T L) acc lines) =
     snd acc \<union> {a \<in> set (List.map_filter record_asn lines).
                  a \<in> set L \<and> a \<noteq> T \<and> listed_as_other T a}"
  using listed_exclusive [of T]
  by (induction lines arbitrary: acc)
     (auto simp: classify_line_record List.map_filter_simps split: option.splits)

lemma map_filter_append: "List.map_filter f (xs @ ys) = List.map_filter f xs @ List.map_filter f ys"
  by (simp add: List.map_filter_def)

lemma foldl_results_fst:
  "fst (foldl (\<lambda>acc result. foldl (classify_line T L) acc (split CHR ''\<newline>'' (strip result))) acc rs) =
     fst acc \<union> {a \<in> response_asns rs. a \<in> set L \<and> a \<noteq> T \<and> listed_as_peer T a}"
  by (induction rs arbitrary: acc)
     (auto simp: foldl_classify_fst response_asns_def reply_lines_def map_filter_append List.map_filter_simps)

lemma foldl_results_snd:
  "snd (foldl (\<lambda>acc result. foldl (classify_line T L) acc (split CHR ''\<newline>'' (strip result))) acc rs) =
     snd acc \<union> {a \<in> response_asns rs. a \<in> set L \<and> a \<noteq> T \<and> listed_as_other T a}"
  by (induction rs arbitrary: acc)
     (auto simp: foldl_classify_snd response_asns_def reply_lines_def map_filter_append List.map_filter_simps)

lemma classify_results_fst:
  "fst (classify_results T L rs) =
     {a \<in> response_asns rs. a \<in> set L \<and> a \<noteq> T \<and> listed_as_peer T a}"
  by (simp add: classify_results_def foldl_results_fst)

lemma classify_results_snd:
  "snd (classify_results T L rs) =
     {a \<in> response_asns rs. a \<in> set L \<and> a \<noteq> T \<and> listed_as_other T a}"
  by (simp add: classify_results_def foldl_results_snd)

lemma listed_in_range:
  assumes "0 \<le> T" and "T \<le> 4294967295"
  shows "listed_as_peer T a \<longleftrightarrow> text_length a = decimal_digits (nat T)"
    and "listed_as_other T a \<longleftrightarrow> text_length a \<noteq> decimal_digits (nat T)"
  using assms py_str_asn_range [OF assms] length_int_text [of a] length_int_text [of T]
  by (simp_all add: listed_as_peer_def listed_as_other_def text_length_def)

subsection \<open>Sample replies\<close>

lemmas text_eval =
  strip_def strip_with_def is_space_def is_int_space_def push_char_def py_int_def
  digits_value_def is_digit_def digit_val_def py_str_def int_text_def max_str_digits_def
  digits.simps digit_chars

lemma sample_queries:
  "asn_queries [64512, 7, 100] = Inr [''as64512'', ''as7'', ''as100'']"
  by (simp add: text_eval)

lemma sample_queries_c: "asn_queries [- 12, 7] = Inr [''as-12'', ''as7'']"
  by (simp add: text_eval)

lemma sample_results_a:
  "all_results sample_bulk_a [''as64512'', ''as7'', ''as100''] = [sample_reply_a]"
  by (simp add: all_results_def batches.simps sample_bulk_a_def sample_reply_a_def
      enumerate_simps)

lemma sample_results_b:
  "all_results sample_bulk_b [''as64512'', ''as7'', ''as100''] = [sample_reply_b]"
  by (simp add: all_results_def batches.simps sample_bulk_b_def sample_reply_b_def
      enumerate_simps)

lemma sample_results_c: "all_results sample_bulk_c [''as-12'', ''as7''] = [sample_reply_c]"
  by (simp add: all_results_def batches.simps sample_bulk_c_def sample_reply_c_def
      enumerate_simps)

lemma sample_lines_a:
  "split CHR ''\<newline>'' (strip sample_reply_a) =
     [''64512 | 192.0.2.0/24 | x | y | US | arin | Example Net'',
      ''7 | 198.51.100.0/24 | x | y | DE | ripe | Seven'']"
  by code_simp

lemma sample_lines_b:
  "split CHR ''\<newline>'' (strip sample_reply_b) =
     [''64512 | 192.0.2.0/24 | x | y | FR | arin | Other Name'',
      ''7 | 198.51.100.0/24 | x | y | JP | ripe | Sieben'']"
  by code_simp

lemma sample_lines_c:
  "split CHR ''\<newline>'' (strip sample_reply_c) =
     [''-12 | 192.0.2.0/24 | x | y | US | arin | Minus Twelve'',
      CHR 0xA0 # ''7'' @ CHR 0xA0 # ''| 198.51.100.0/24 | x | y | DE | ripe | Seven'']"
  by code_simp

lemma sample_record_1:
  "record_asn ''64512 | 192.0.2.0/24 | x | y | US | arin | Example Net'' = Some 64512"
  by (simp add: record_asn_def text_eval)

lemma sample_record_2:
  "record_asn ''7 | 198.51.100.0/24 | x | y | DE | ripe | Seven'' = Some 7"
  by (simp add: record_asn_def text_eval)

lemma sample_record_3:
  "record_asn ''-12 | 192.0.2.0/24 | x | y | US | arin | Minus Twelve'' = Some (- 12)"
  by (simp add: record_asn_def text_eval)

lemma sample_record_4:
  "record_asn (CHR 0xA0 # ''7'' @ CHR 0xA0 # ''| 198.51.100.0/24 | x | y | DE | ripe | Seven'')
     = Some 7"
  by (simp add: record_asn_def text_eval)

lemma sample_response_asns_a: "response_asns [sample_reply_a] = {64512, 7}"
  by (simp add: response_asns_def reply_lines_def sample_lines_a
      List.map_filter_simps sample_record_1 sample_record_2)

lemma sample_response_asns_c: "response_asns [sample_reply_c] = {- 12, 7}"
  by (simp add: response_asns_def reply_lines_def sample_lines_c
      List.map_filter_simps sample_record_3 sample_record_4 [simplified])

lemma sample_listed_650:
  "listed_as_peer 650 (- 12)" "\<not> listed_as_other 650 (- 12)"
  "listed_as_other 650 7" "\<not> listed_as_peer 650 7"
  by (simp_all add: listed_as_peer_def listed_as_other_def text_eval)

lemma sample_classified_c:
  "classify_results 650 [- 12, 7] [sample_reply_c] = ({- 12}, {7})"
proof (rule prod_eqI)
  show "fst (classify_results 650 [- 12, 7] [sample_reply_c]) = fst ({- 12}, {7::int})"
    unfolding classify_results_fst sample_response_asns_c
    using sample_listed_650 by auto
  show "snd (classify_results 650 [- 12, 7] [sample_reply_c]) = snd ({- 12}, {7::int})"
    unfolding classify_results_snd sample_response_asns_c
    using sample_listed_650 by auto
qed

lemma sample_analyzed_c:
  "analyze_asn_relationships sample_bulk_c 650 [- 12, 7] = Inr ({- 12}, {7})"
  unfolding analyze_asn_relationships_def sample_queries_c
  by (simp add: sample_results_c sample_classified_c)

subsection \<open>The classification\<close>

text \<open>
  C1, as the code has it. Take any line of any whois reply that has at least seven
  pipe-delimited fields and whose field 0 reads as the integer \<open>a\<close>, with \<open>a\<close> in the
  related-ASN list and different from the target, a valid ASN. Then \<open>a\<close> is a potential
  peer exactly when the length of its decimal text, digits and minus sign, is the
  number of digits of the target, and is listed as other exactly when it is not. For
  \<open>a\<close> not negative the length of the text is the number of digits of \<open>a\<close>.
\<close>

theorem analyze_classifies_by_text_length:
  assumes "asn_queries asn_list = Inr queries"
    and "result \<in> set (all_results bulk queries)"
    and "line \<in> set (split CHR ''\<newline>'' (strip result))"
    and "7 \<le> length (split CHR ''|'' line)"
    and "py_int (strip (split CHR ''|'' line ! 0)) = Inr a"
    and "a \<in> set asn_list" and "a \<noteq> target"
    and "1 \<le> target" and "target \<le> 4294967295"
  shows "\<exists>peers others.
           analyze_asn_relationships bulk target asn_list = Inr (peers, others)
         \<and> (a \<in> peers \<longleftrightarrow> text_length a = decimal_digits (nat target))
         \<and> (a \<in> others \<longleftrightarrow> text_length a \<noteq> decimal_digits (nat target))
         \<and> (0 \<le> a \<longrightarrow> text_length a = decimal_digits (nat a))"
proof -
  let ?R = "classify_results target asn_list (all_results bulk queries)"
  have "record_asn line = Some a"
    using assms(4,5) by (simp add: record_asn_def)
  moreover have "line \<in> set (reply_lines (all_results bulk queries))"
    using assms(2,3) by (auto simp: reply_lines_def)
  ultimately have mem: "a \<in> response_asns (all_results bulk queries)"
    by (force simp: response_asns_def List.map_filter_def)
  have t0: "0 \<le> target" using assms(8) by simp
  have r: "analyze_asn_relationships bulk target asn_list = Inr (fst ?R, snd ?R)"
    using assms(1) by (simp add: analyze_asn_relationships_def)
  have p: "a \<in> fst ?R \<longleftrightarrow> text_length a = decimal_digits (nat target)"
    using mem assms(6,7) listed_in_range(1) [OF t0 assms(9)]
    by (simp add: classify_results_fst)
  have q: "a \<in> snd ?R \<longleftrightarrow> text_length a \<noteq> decimal_digits (nat target)"
    using mem assms(6,7) listed_in_range(2) [OF t0 assms(9)]
    by (simp add: classify_results_snd)
  have n: "0 \<le> a \<longrightarrow> text_length a = decimal_digits (nat a)"
    by (simp add: text_length_def)
  from r p q n show ?thesis by blast
qed

theorem analyze_classifies_by_text_length_witness:
  "\<exists>peers others.
     analyze_asn_relationships sample_bulk_c 650 [- 12, 7] = Inr (peers, others)
   \<and> (7 \<in> peers \<longleftrightarrow> text_length 7 = decimal_digits (nat 650))
   \<and> (7 \<in> others \<longleftrightarrow> text_length 7 \<noteq> decimal_digits (nat 650))
   \<and> (0 \<le> (7::int) \<longrightarrow> text_length 7 = decimal_digits (nat 7))"
proof -
  let ?l = "CHR 0xA0 # ''7'' @ CHR 0xA0 # ''| 198.51.100.0/24 | x | y | DE | ripe | Seven''"
  have r: "sample_reply_c \<in> set (all_results sample_bulk_c [''as-12'', ''as7''])"
    by (simp add: sample_results_c)
  have l: "?l \<in> set (split CHR ''\<newline>'' (strip sample_reply_c))"
    by (simp add: sample_lines_c)
  have f: "7 \<le> length (split CHR ''|'' ?l)" by code_simp
  have p: "py_int (strip (split CHR ''|'' ?l ! 0)) = Inr 7"
    by (simp add: text_eval)
  have m: "(7::int) \<in> set [- 12, 7]" "(7::int) \<noteq> 650" "(1::int) \<le> 650"
    "(650::int) \<le> 4294967295" by simp_all
  show ?thesis
    by (rule analyze_classifies_by_text_length [OF sample_queries_c r l f p m])
qed

text \<open>
  The claim as stated, with the number of digits of \<open>a\<close>, fails for a negative field 0:
  with target 650 the record of \<open>-12\<close> is a potential peer, two digits against three.
\<close>

theorem negative_asn_counted_with_its_sign:
  "analyze_asn_relationships sample_bulk_c 650 [- 12, 7] = Inr ({- 12}, {7})
   \<and> decimal_digits (nat \<bar>- 12\<bar>) \<noteq> decimal_digits (nat 650)"
  by (simp add: sample_analyzed_c decimal_digits.simps)

text \<open>
  C3. For a valid target ASN: when the queries cannot be built the method raises; else
  it returns two disjoint sets whose union is the set of ASNs of the input list, other
  than the target, that have a record in the whois replies, and an ASN without a record
  in the replies is in neither set.
\<close>

theorem analyze_partition:
  assumes "1 \<le> target" and "target \<le> 4294967295"
  shows "case asn_queries asn_list of
           Inl e \<Rightarrow> analyze_asn_relationships bulk target asn_list = Inl e
         | Inr queries \<Rightarrow>
             (\<exists>peers others.
                analyze_asn_relationships bulk target asn_list = Inr (peers, others)
              \<and> peers \<inter> others = {}
              \<and> peers \<union> others
                  = {a \<in> set asn_list. a \<noteq> target
                       \<and> a \<in> response_asns (all_results bulk queries)}
              \<and> (\<forall>a. a \<notin> response_asns (all_results bulk queries) \<longrightarrow>
                     a \<notin> peers \<and> a \<notin> others))"
proof (cases "asn_queries asn_list")
  case (Inl e)
  then show ?thesis by (simp add: analyze_asn_relationships_def)
next
  case (Inr queries)
  let ?R = "classify_results target asn_list (all_results bulk queries)"
  have t0: "0 \<le> target" using assms(1) by simp
  note ls = listed_in_range [OF t0 assms(2)]
  have r: "analyze_asn_relationships bulk target asn_list = Inr (fst ?R, snd ?R)"
    using Inr by (simp add: analyze_asn_relationships_def)
  have d: "fst ?R \<inter> snd ?R = {}"
    by (auto simp: classify_results_fst classify_results_snd ls)
  have u: "fst ?R \<union> snd ?R
      = {a \<in> set asn_list. a \<noteq> target \<and> a \<in> response_asns (all_results bulk queries)}"
    by (auto simp: classify_results_fst classify_results_snd ls)
  have n: "\<forall>a. a \<notin> response_asns (all_results bulk queries) \<longrightarrow> a \<notin> fst ?R \<and> a \<notin> snd ?R"
    by (simp add: classify_results_fst classify_results_snd)
  from r d u n have "\<exists>peers others.
                analyze_asn_relationships bulk target asn_list = Inr (peers, others)
              \<and> peers \<inter> others = {}
              \<and> peers \<union> others
                  = {a \<in> set asn_list. a \<noteq> target
                       \<and> a \<in> response_asns (all_results bulk queries)}
              \<and> (\<forall>a. a \<notin> response_asns (all_results bulk queries) \<longrightarrow>
                     a \<notin> peers \<and> a \<notin> others)"
    by blast
  then show ?thesis using Inr by simp
qed

theorem analyze_partition_witness:
  "\<exists>peers others.
     analyze_asn_relationships sample_bulk_a 65000 [64512, 7, 100] = Inr (peers, others)
   \<and> peers \<inter> others = {}
   \<and> peers \<union> others = {64512, 7}
   \<and> 100 \<notin> peers \<and> 100 \<notin> others"
proof -
  have g: "(1::int) \<le> 65000" "(65000::int) \<le> 4294967295" by simp_all
  have s: "{a \<in> set [64512, 7, 100::int]. a \<noteq> 65000 \<and> a \<in> {64512, 7}} = {64512, 7}"
    by auto
  have n: "(100::int) \<notin> {64512, 7}" by simp
  from analyze_partition [OF g, where asn_list = "[64512, 7, 100]" and bulk = sample_bulk_a]
  obtain peers others where
    "analyze_asn_relationships sample_bulk_a 65000 [64512, 7, 100] = Inr (peers, others)"
    "peers \<inter> others = {}"
    "peers \<union> others = {64512, 7}"
    "\<forall>a. a \<notin> {64512, 7::int} \<longrightarrow> a \<notin> peers \<and> a \<notin> others"
    unfolding sample_queries sum.case sample_results_a sample_response_asns_a s by blast
  then show ?thesis using n by blast
qed

lemma record_asn_fields:
  "List.map_filter record_asn lines =
     List.map_filter (\<lambda>f. case py_int (strip f) of Inl e \<Rightarrow> None | Inr asn \<Rightarrow> Some asn)
       (map (\<lambda>line. split CHR ''|'' line ! 0)
          (filter (\<lambda>line. 7 \<le> length (split CHR ''|'' line)) lines))"
  by (induction lines) (auto simp: List.map_filter_simps record_asn_def split: sum.splits)

lemma response_asns_fields:
  "response_asns rs =
     set (List.map_filter (\<lambda>f. case py_int (strip f) of Inl e \<Rightarrow> None | Inr asn \<Rightarrow> Some asn)
            (asn_fields rs))"
  by (simp add: response_asns_def asn_fields_def record_asn_fields)

text \<open>
  C9. The classification depends only on the target, the input list and the ASN fields
  of the whois records: two networks whose replies carry, in their lines of at least
  seven fields, the same sequence of first fields give the same result, whatever the
  country and name fields hold.
\<close>

theorem analyze_depends_on_asn_fields_only:
  assumes "\<And>queries. asn_queries asn_list = Inr queries \<Longrightarrow>
             asn_fields (all_results bulk1 queries) = asn_fields (all_results bulk2 queries)"
  shows "analyze_asn_relationships bulk1 target asn_list
       = analyze_asn_relationships bulk2 target asn_list"
proof (cases "asn_queries asn_list")
  case (Inl e)
  then show ?thesis by (simp add: analyze_asn_relationships_def)
next
  case (Inr queries)
  have "response_asns (all_results bulk1 queries) = response_asns (all_results bulk2 queries)"
    using assms [OF Inr] by (simp add: response_asns_fields)
  then have "classify_results target asn_list (all_results bulk1 queries)
           = classify_results target asn_list (all_results bulk2 queries)"
    by (intro prod_eqI) (simp_all add: classify_results_fst classify_results_snd)
  then show ?thesis using Inr by (simp add: analyze_asn_relationships_def)
qed

theorem analyze_depends_on_asn_fields_only_witness:
  "sample_reply_a \<noteq> sample_reply_b
   \<and> analyze_asn_relationships sample_bulk_a 65000 [64512, 7, 100]
     = analyze_asn_relationships sample_bulk_b 65000 [64512, 7, 100]"
proof
  show "sample_reply_a \<noteq> sample_reply_b"
    by (simp add: sample_reply_a_def sample_reply_b_def)
  show "analyze_asn_relationships sample_bulk_a 65000 [64512, 7, 100]
      = analyze_asn_relationships sample_bulk_b 65000 [64512, 7, 100]"
  proof (rule analyze_depends_on_asn_fields_only)
    fix queries
    assume "asn_queries [64512, 7, 100] = Inr queries"
    then have q: "queries = [''as64512'', ''as7'', ''as100'']"
      unfolding sample_queries by simp
    show "asn_fields (all_results sample_bulk_a queries)
        = asn_fields (all_results sample_bulk_b queries)"
      unfolding q asn_fields_def reply_lines_def sample_results_a sample_results_b
      by (simp add: sample_lines_a sample_lines_b push_char_def)
  qed
qed


subsection \<open>The related-ASN search\<close>

lemma collect_networks_str:
  "collect_networks (map KStr ps) acc = Inr (acc \<union> {k. \<exists>p \<in> set ps. prefix_key p = Some k})"
  by (induction ps arbitrary: acc) (auto split: option.splits)

lemma scan_table_str:
  "scan_table T nets (str_table tbl) acc =
     Inr (acc \<union> {a. \<exists>p k. (p, a) \<in> set tbl \<and> a \<noteq> T \<and> prefix_key p = Some k \<and> k \<in> nets})"
proof (induction tbl arbitrary: acc)
  case Nil
  then show ?case by (simp add: str_table_def)
next
  case (Cons x tbl)
  obtain p a where x: "x = (p, a)" by (cases x)
  have step: "str_table (x # tbl) = (KStr p, a) # str_table tbl"
    by (simp add: str_table_def x)
  show ?case
    unfolding step using Cons.IH
    by (auto simp: x str_table_def split: option.splits)
qed

lemma target_keys_iff:
  "k \<in> target_keys T tbl \<longleftrightarrow> (\<exists>q. (q, T) \<in> set tbl \<and> prefix_key q = Some k)"
  by (induction tbl)
     (auto simp: target_keys_def List.map_filter_simps split: if_splits option.splits)

lemma our_prefixes_str:
  "map fst (filter (\<lambda>(prefix, asn). asn = T) (str_table tbl)) =
     map KStr (map fst (filter (\<lambda>(prefix, asn). asn = T) tbl))"
  by (induction tbl) (auto simp: str_table_def)

lemma get_related_asns_str:
  "get_related_asns T (str_table tbl) =
     Inr {a. \<exists>p k. (p, a) \<in> set tbl \<and> a \<noteq> T \<and> prefix_key p = Some k \<and> k \<in> target_keys T tbl}"
proof (cases "tbl = []")
  case True
  then show ?thesis by (simp add: get_related_asns_def str_table_def)
next
  case False
  then have ne: "str_table tbl \<noteq> []" by (simp add: str_table_def)
  have nets: "{k. \<exists>p \<in> set (map fst (filter (\<lambda>(prefix, asn). asn = T) tbl)). prefix_key p = Some k}
        = target_keys T tbl"
    by (auto simp: target_keys_iff)
  have "collect_networks (map fst (filter (\<lambda>(prefix, asn). asn = T) (str_table tbl))) {}
      = Inr (target_keys T tbl)"
    unfolding our_prefixes_str collect_networks_str nets by simp
  then show ?thesis
    using ne by (simp add: get_related_asns_def scan_table_str)
qed

lemma scan_table_excludes_target:
  "scan_table T nets tbl acc = Inr S \<Longrightarrow> T \<notin> acc \<Longrightarrow> T \<notin> S"
proof (induction tbl arbitrary: acc)
  case Nil
  then show ?case by simp
next
  case (Cons x tbl)
  obtain p a where x: "x = (p, a)" by (cases x)
  show ?case
  proof (cases "a = T")
    case True
    with Cons.prems x have "scan_table T nets tbl acc = Inr S" by simp
    from this Cons.prems(2) show ?thesis by (rule Cons.IH)
  next
    case False
    then have ins: "T \<notin> insert a acc" using Cons.prems(2) by simp
    from Cons.prems(1) x False
    have "scan_table T nets tbl acc = Inr S \<or> scan_table T nets tbl (insert a acc) = Inr S"
      by (auto split: sum.splits option.splits if_splits)
    then show ?thesis
      using Cons.IH [OF _ Cons.prems(2)] Cons.IH [OF _ ins] by blast
  qed
qed

lemma get_related_asns_excludes_target:
  "get_related_asns T tbl = Inr S \<Longrightarrow> T \<notin> S"
  by (auto simp: get_related_asns_def Let_def split: if_splits sum.splits
      dest: scan_table_excludes_target)

lemma hd_split: "hd (split c s) = takeWhile (\<lambda>x. x \<noteq> c) s"
  by (induction s) (auto simp: push_char_def)

lemma split_cons_sep: "c \<notin> set a \<Longrightarrow> split c (a @ c # rest) = a # split c rest"
  by (induction a) (auto simp: push_char_def)

lemma prefix_key_ipv4:
  assumes "CHR ''.'' \<notin> set a" "CHR ''/'' \<notin> set a"
    and "CHR ''.'' \<notin> set b" "CHR ''/'' \<notin> set b"
    and "CHR ''/'' \<notin> set rest"
  shows "prefix_key (a @ ''.'' @ b @ ''.'' @ rest @ ''/'' @ len) = Some (a @ ''.'' @ b)"
proof -
  let ?ip = "a @ ''.'' @ b @ ''.'' @ rest"
  have nos: "CHR ''/'' \<notin> set ?ip" using assms by simp
  have "split CHR ''/'' (?ip @ CHR ''/'' # len) = ?ip # split CHR ''/'' len"
    using nos by (rule split_cons_sep)
  then have ip: "hd (split CHR ''/'' (a @ ''.'' @ b @ ''.'' @ rest @ ''/'' @ len)) = ?ip"
    by simp
  have oct: "split CHR ''.'' ?ip = a # b # split CHR ''.'' rest"
    using split_cons_sep [OF assms(1), of "b @ ''.'' @ rest"]
          split_cons_sep [OF assms(3), of rest] by simp
  show ?thesis
    using ip oct by (simp add: prefix_key_def)
qed

lemma prefix_key_ipv6:
  assumes "CHR '':'' \<notin> set a" "CHR ''/'' \<notin> set a" "CHR ''.'' \<notin> set a"
    and "CHR '':'' \<notin> set b" "CHR ''/'' \<notin> set b" "CHR ''.'' \<notin> set b"
    and "CHR ''/'' \<notin> set rest" "CHR ''.'' \<notin> set rest"
  shows "prefix_key (a @ '':'' @ b @ '':'' @ rest @ ''/'' @ len) = Some (a @ '':'' @ b)"
proof -
  let ?ip = "a @ '':'' @ b @ '':'' @ rest"
  have nos: "CHR ''/'' \<notin> set ?ip" using assms by simp
  have nod: "CHR ''.'' \<notin> set ?ip" using assms by simp
  have "split CHR ''/'' (?ip @ CHR ''/'' # len) = ?ip # split CHR ''/'' len"
    using nos by (rule split_cons_sep)
  then have ip: "hd (split CHR ''/'' (a @ '':'' @ b @ '':'' @ rest @ ''/'' @ len)) = ?ip"
    by simp
  have parts: "split CHR '':'' ?ip = a # b # split CHR '':'' rest"
    using split_cons_sep [OF assms(1), of "b @ '':'' @ rest"]
          split_cons_sep [OF assms(4), of rest] by simp
  show ?thesis
    using ip parts nod by (simp add: prefix_key_def)
qed

lemma prefix_key_1_2:
  assumes "CHR ''/'' \<in> set r"
  shows "prefix_key (''1.2.'' @ r) = Some ''1.2''"
proof -
  let ?t = "takeWhile (\<lambda>x. x \<noteq> CHR ''/'') r"
  have ip: "hd (split CHR ''/'' (''1.2.'' @ r)) = ''1.2.'' @ ?t"
    by (simp only: hd_split) simp
  have oct: "split CHR ''.'' (''1.2.'' @ ?t) = ''1'' # ''2'' # split CHR ''.'' ?t"
    by (simp add: push_char_def)
  have len: "2 \<le> length (split CHR ''.'' (''1.2.'' @ ?t))"
    unfolding oct by simp
  have "prefix_key (''1.2.'' @ r) =
      Some (split CHR ''.'' (''1.2.'' @ ?t) ! 0 @ ''.'' @ split CHR ''.'' (''1.2.'' @ ?t) ! 1)"
    unfolding prefix_key_def ip using assms len by (simp add: Let_def)
  then show ?thesis unfolding oct by simp
qed

lemma sample_prefix_keys:
  "prefix_key ''1.2.3.0/24'' = Some ''1.2''" "prefix_key ''1.2.4.0/24'' = Some ''1.2''"
  "prefix_key ''1.2.9.0/24'' = Some ''1.2''" "prefix_key ''8.8.8.0/24'' = Some ''8.8''"
  "prefix_key ''1.2.77.0/25'' = Some ''1.2''"
  by code_simp+

lemma sample_own_prefixes:
  "{q. (q, 64500) \<in> set sample_table} = {''1.2.3.0/24'', ''1.2.4.0/24''}"
  by (auto simp: sample_table_def)

lemma sample_related:
  "get_related_asns 64500 (str_table sample_table) = Inr {64512, 7}"
  by (simp add: get_related_asns_def str_table_def sample_table_def sample_prefix_keys
      insert_commute)

text \<open>
  C2. On a table of prefix strings, \<open>get_related_asns\<close> returns exactly the origin ASNs,
  other than the target, of the prefixes whose grouping key is the grouping key of a
  prefix originated by the target. The key of a dotted prefix is its first two octets,
  the key of a colon-separated prefix its first two hextets. When the target originates
  exactly 1.2.3.0/24 and 1.2.4.0/24 the key set is \<open>{1.2}\<close>, and every other ASN that
  announces a prefix beginning with 1.2. is returned.
\<close>

theorem get_related_asns_grouping:
  "get_related_asns T (str_table tbl) =
     Inr {a. \<exists>p k. (p, a) \<in> set tbl \<and> a \<noteq> T \<and> prefix_key p = Some k \<and> k \<in> target_keys T tbl}
   \<and> target_keys T tbl = {k. \<exists>q. (q, T) \<in> set tbl \<and> prefix_key q = Some k}
   \<and> (\<forall>a b rest len.
         CHR ''.'' \<notin> set a \<and> CHR ''/'' \<notin> set a \<and> CHR ''.'' \<notin> set b \<and> CHR ''/'' \<notin> set b
         \<and> CHR ''/'' \<notin> set rest
         \<longrightarrow> prefix_key (a @ ''.'' @ b @ ''.'' @ rest @ ''/'' @ len) = Some (a @ ''.'' @ b))
   \<and> (\<forall>a b rest len.
         CHR '':'' \<notin> set a \<and> CHR ''/'' \<notin> set a \<and> CHR ''.'' \<notin> set a
         \<and> CHR '':'' \<notin> set b \<and> CHR ''/'' \<notin> set b \<and> CHR ''.'' \<notin> set b
         \<and> CHR ''/'' \<notin> set rest \<and> CHR ''.'' \<notin> set rest
         \<longrightarrow> prefix_key (a @ '':'' @ b @ '':'' @ rest @ ''/'' @ len) = Some (a @ '':'' @ b))
   \<and> ({q. (q, T) \<in> set tbl} = {''1.2.3.0/24'', ''1.2.4.0/24''}
        \<longrightarrow> target_keys T tbl = {''1.2''}
          \<and> (\<forall>p a r. (p, a) \<in> set tbl \<and> a \<noteq> T \<and> p = ''1.2.'' @ r \<and> CHR ''/'' \<in> set r
                \<longrightarrow> (\<exists>S. get_related_asns T (str_table tbl) = Inr S \<and> a \<in> S)))"
proof (intro conjI allI impI)
  show "get_related_asns T (str_table tbl) =
     Inr {a. \<exists>p k. (p, a) \<in> set tbl \<and> a \<noteq> T \<and> prefix_key p = Some k \<and> k \<in> target_keys T tbl}"
    by (rule get_related_asns_str)
next
  show "target_keys T tbl = {k. \<exists>q. (q, T) \<in> set tbl \<and> prefix_key q = Some k}"
    by (auto simp: target_keys_iff)
next
  fix a b rest len
  assume "CHR ''.'' \<notin> set a \<and> CHR ''/'' \<notin> set a \<and> CHR ''.'' \<notin> set b \<and> CHR ''/'' \<notin> set b
         \<and> CHR ''/'' \<notin> set rest"
  then show "prefix_key (a @ ''.'' @ b @ ''.'' @ rest @ ''/'' @ len) = Some (a @ ''.'' @ b)"
    by (intro prefix_key_ipv4) simp_all
next
  fix a b rest len
  assume "CHR '':'' \<notin> set a \<and> CHR ''/'' \<notin> set a \<and> CHR ''.'' \<notin> set a
         \<and> CHR '':'' \<notin> set b \<and> CHR ''/'' \<notin> set b \<and> CHR ''.'' \<notin> set b
         \<and> CHR ''/'' \<notin> set rest \<and> CHR ''.'' \<notin> set rest"
  then show "prefix_key (a @ '':'' @ b @ '':'' @ rest @ ''/'' @ len) = Some (a @ '':'' @ b)"
    by (intro prefix_key_ipv6) simp_all
next
  assume own: "{q. (q, T) \<in> set tbl} = {''1.2.3.0/24'', ''1.2.4.0/24''}"
  have "target_keys T tbl = {k. \<exists>q \<in> {q. (q, T) \<in> set tbl}. prefix_key q = Some k}"
    by (auto simp: target_keys_iff)
  also have "\<dots> = {k. \<exists>q \<in> {''1.2.3.0/24'', ''1.2.4.0/24''}. prefix_key q = Some k}"
    by (simp only: own)
  also have "\<dots> = {''1.2''}"
    by (auto simp: sample_prefix_keys)
  finally show keys: "target_keys T tbl = {''1.2''}" .
  fix p a r
  assume h: "(p, a) \<in> set tbl \<and> a \<noteq> T \<and> p = ''1.2.'' @ r \<and> CHR ''/'' \<in> set r"
  then have "prefix_key p = Some ''1.2''" using prefix_key_1_2 [of r] by simp
  with h keys have "a \<in> {a. \<exists>p k. (p, a) \<in> set tbl \<and> a \<noteq> T \<and> prefix_key p = Some k
                        \<and> k \<in> target_keys T tbl}"
    by blast
  then show "\<exists>S. get_related_asns T (str_table tbl) = Inr S \<and> a \<in> S"
    by (simp add: get_related_asns_str)
qed

theorem get_related_asns_grouping_witness:
  "get_related_asns 64500 (str_table sample_table) = Inr {64512, 7}
   \<and> target_keys 64500 sample_table = {''1.2''}
   \<and> (\<exists>S. get_related_asns 64500 (str_table sample_table) = Inr S \<and> 64512 \<in> S)"
proof -
  note g = get_related_asns_grouping [of 64500 sample_table]
  note g1 = g [THEN conjunct1]
  note g5 = g [THEN conjunct2, THEN conjunct2, THEN conjunct2, THEN conjunct2]
  have ex: "target_keys 64500 sample_table = {''1.2''}
      \<and> (\<forall>p a r. (p, a) \<in> set sample_table \<and> a \<noteq> 64500 \<and> p = ''1.2.'' @ r \<and> CHR ''/'' \<in> set r
            \<longrightarrow> (\<exists>S. get_related_asns 64500 (str_table sample_table) = Inr S \<and> a \<in> S))"
    using g5 sample_own_prefixes by (rule mp)
  have mem: "(''1.2.9.0/24'', 64512) \<in> set sample_table \<and> (64512::int) \<noteq> 64500
      \<and> ''1.2.9.0/24'' = ''1.2.'' @ ''9.0/24'' \<and> CHR ''/'' \<in> set ''9.0/24''"
    by (simp add: sample_table_def)
  have found: "\<exists>S. get_related_asns 64500 (str_table sample_table) = Inr S \<and> 64512 \<in> S"
    using ex [THEN conjunct2, THEN spec, THEN spec, THEN spec, THEN mp, OF mem] .
  have "Inr {a. \<exists>p k. (p, a) \<in> set sample_table \<and> a \<noteq> 64500 \<and> prefix_key p = Some k
                  \<and> k \<in> target_keys 64500 sample_table} = (Inr {64512, 7} :: py_error + int set)"
    using g1 by (simp only: sample_related)
  then have rel: "get_related_asns 64500 (str_table sample_table) = Inr {64512, 7}"
    using g1 by (rule trans [rotated])
  show ?thesis
    using rel ex [THEN conjunct1] found by (intro conjI)
qed

text \<open>
  C8. Whatever the table, a set returned by \<open>get_related_asns\<close> does not contain the
  target ASN.
\<close>

theorem related_asns_exclude_target:
  "get_related_asns T table_data = Inr S \<Longrightarrow> T \<notin> S"
  by (rule get_related_asns_excludes_target)

theorem related_asns_exclude_target_witness:
  "get_related_asns 64500 (str_table sample_table) = Inr {64512, 7}
   \<and> 64500 \<notin> {64512, 7 :: int}"
  using related_asns_exclude_target [OF sample_related] sample_related by simp

subsection \<open>The report files\<close>

lemma report_entry_cases:
  "report_entry names a =
     (if decimal_digits (nat \<bar>a\<bar>) \<le> 4300
      then Inr (entry_text (int_text a) (display_name names a)) else Inl ValueError)"
  by (simp add: report_entry_def py_str_cases entry_text_def display_name_def Let_def)

lemma write_entries_raised:
  "snd (write_entries names xs) = None \<longleftrightarrow> (\<forall>a \<in> set xs. decimal_digits (nat \<bar>a\<bar>) \<le> 4300)"
  by (induction xs) (simp_all add: report_entry_cases after_text_def)

lemma write_entries_text:
  "\<forall>a \<in> set xs. decimal_digits (nat \<bar>a\<bar>) \<le> 4300 \<Longrightarrow>
     fst (write_entries names xs) =
       concat (map (\<lambda>a. entry_text (int_text a) (display_name names a)) xs)"
  by (induction xs) (simp_all add: report_entry_cases after_text_def)

lemma write_report_raised:
  "finite A \<Longrightarrow>
     snd (write_report opening names A) = None \<longleftrightarrow>
       decimal_digits (card A) \<le> 4300 \<and> (\<forall>a \<in> A. decimal_digits (nat \<bar>a\<bar>) \<le> 4300)"
  by (simp add: write_report_def py_str_cases after_text_def write_entries_raised)

lemma write_report_text:
  "finite A \<Longrightarrow> snd (write_report opening names A) = None \<Longrightarrow>
     fst (write_report opening names A) =
       opening @ ''Total: '' @ int_text (int (card A)) @ ''\<newline>\<newline>''
       @ concat (map (\<lambda>a. entry_text (int_text a) (display_name names a)) (sorted_list_of_set A))"
  by (simp add: write_report_def py_str_cases after_text_def write_entries_raised
        write_entries_text split: if_splits)

lemma sorted_three: "sorted_list_of_set {100, 64512, 7 :: int} = [7, 100, 64512]"
  by simp

lemma write_results_raised:
  "raised (write_results T peers non_peers names stamp now_a now_b) = None \<longleftrightarrow>
     decimal_digits (nat \<bar>T\<bar>) \<le> 4300
     \<and> snd (write_report (peers_opening (int_text T) now_a) names peers) = None
     \<and> snd (write_report (other_opening (int_text T) now_b) names non_peers) = None"
  by (simp add: write_results_def py_str_cases Let_def split: option.splits)

text \<open>
  C6. For finite sets, \<open>write_results\<close> raises nothing exactly when the target, the two
  totals and every ASN have a decimal text within the limit of \<open>str\<close>. Then it leaves
  two files; the entries of each are those of the strictly ascending list of the set,
  which is what sorting any enumeration of the set gives, so the set \<open>{100, 64512, 7}\<close>
  is written in the order 7, 100, 64512; each entry shows the name from the mapping, or
  \<open>AS\<close> and the number when the ASN is absent from it.
\<close>

theorem write_results_ascending_with_names:
  assumes "finite peers" and "finite non_peers"
  shows "(raised (write_results T peers non_peers names stamp now_a now_b) = None \<longleftrightarrow>
            (\<forall>i \<in> {T, int (card peers), int (card non_peers)} \<union> peers \<union> non_peers.
               decimal_digits (nat \<bar>i\<bar>) \<le> 4300))
       \<and> (raised (write_results T peers non_peers names stamp now_a now_b) = None \<longrightarrow>
            (\<exists>ps os.
               sorted_wrt (<) ps \<and> set ps = peers \<and> sorted_wrt (<) os \<and> set os = non_peers
               \<and> (peers = {100, 64512, 7} \<longrightarrow> ps = [7, 100, 64512])
               \<and> (distinct xs \<and> set xs = peers \<longrightarrow> sort xs = ps)
               \<and> (distinct ys \<and> set ys = non_peers \<longrightarrow> sort ys = os)
               \<and> written (write_results T peers non_peers names stamp now_a now_b) =
                   [(''AS'' @ int_text T @ ''_potential_peers_'' @ stamp @ ''.txt'',
                     peers_opening (int_text T) now_a
                     @ ''Total: '' @ int_text (int (card peers)) @ ''\<newline>\<newline>''
                     @ concat (map (\<lambda>a. entry_text (int_text a) (display_name names a)) ps)),
                    (''AS'' @ int_text T @ ''_other_asns_'' @ stamp @ ''.txt'',
                     other_opening (int_text T) now_b
                     @ ''Total: '' @ int_text (int (card non_peers)) @ ''\<newline>\<newline>''
                     @ concat (map (\<lambda>a. entry_text (int_text a) (display_name names a)) os))]))"
proof (intro conjI impI)
  show "raised (write_results T peers non_peers names stamp now_a now_b) = None \<longleftrightarrow>
          (\<forall>i \<in> {T, int (card peers), int (card non_peers)} \<union> peers \<union> non_peers.
             decimal_digits (nat \<bar>i\<bar>) \<le> 4300)"
    using assms by (simp add: write_results_raised write_report_raised) blast
next
  assume ok: "raised (write_results T peers non_peers names stamp now_a now_b) = None"
  have T: "py_str T = Inr (int_text T)"
    using ok by (auto simp: write_results_def py_str_cases split: if_splits)
  have p: "snd (write_report (peers_opening (int_text T) now_a) names peers) = None"
    using ok by (auto simp: write_results_def T Let_def split: option.splits)
  have n: "snd (write_report (other_opening (int_text T) now_b) names non_peers) = None"
    using ok p by (simp add: write_results_def T Let_def)
  let ?ps = "sorted_list_of_set peers" and ?os = "sorted_list_of_set non_peers"
  have "sorted_wrt (<) ?ps" "set ?ps = peers" "sorted_wrt (<) ?os" "set ?os = non_peers"
    using assms by (simp_all add: strict_sorted_iff [symmetric])
  moreover have "peers = {100, 64512, 7} \<longrightarrow> ?ps = [7, 100, 64512]"
    using sorted_three by simp
  moreover have "distinct xs \<and> set xs = peers \<longrightarrow> sort xs = ?ps"
    using sorted_list_of_set_sort_remdups [of xs] by (auto simp: distinct_remdups_id)
  moreover have "distinct ys \<and> set ys = non_peers \<longrightarrow> sort ys = ?os"
    using sorted_list_of_set_sort_remdups [of ys] by (auto simp: distinct_remdups_id)
  moreover have "written (write_results T peers non_peers names stamp now_a now_b) =
                   [(''AS'' @ int_text T @ ''_potential_peers_'' @ stamp @ ''.txt'',
                     peers_opening (int_text T) now_a
                     @ ''Total: '' @ int_text (int (card peers)) @ ''\<newline>\<newline>''
                     @ concat (map (\<lambda>a. entry_text (int_text a) (display_name names a)) ?ps)),
                    (''AS'' @ int_text T @ ''_other_asns_'' @ stamp @ ''.txt'',
                     other_opening (int_text T) now_b
                     @ ''Total: '' @ int_text (int (card non_peers)) @ ''\<newline>\<newline>''
                     @ concat (map (\<lambda>a. entry_text (int_text a) (display_name names a)) ?os))]"
    using p n assms
    by (simp add: write_results_def T Let_def write_report_text)
  ultimately show "\<exists>ps os.
               sorted_wrt (<) ps \<and> set ps = peers \<and> sorted_wrt (<) os \<and> set os = non_peers
               \<and> (peers = {100, 64512, 7} \<longrightarrow> ps = [7, 100, 64512])
               \<and> (distinct xs \<and> set xs = peers \<longrightarrow> sort xs = ps)
               \<and> (distinct ys \<and> set ys = non_peers \<longrightarrow> sort ys = os)
               \<and> written (write_results T peers non_peers names stamp now_a now_b) =
                   [(''AS'' @ int_text T @ ''_potential_peers_'' @ stamp @ ''.txt'',
                     peers_opening (int_text T) now_a
                     @ ''Total: '' @ int_text (int (card peers)) @ ''\<newline>\<newline>''
                     @ concat (map (\<lambda>a. entry_text (int_text a) (display_name names a)) ps)),
                    (''AS'' @ int_text T @ ''_other_asns_'' @ stamp @ ''.txt'',
                     other_opening (int_text T) now_b
                     @ ''Total: '' @ int_text (int (card non_peers)) @ ''\<newline>\<newline>''
                     @ concat (map (\<lambda>a. entry_text (int_text a) (display_name names a)) os))]"
    by blast
qed

theorem write_results_ascending_with_names_witness:
  "raised (write_results 650 {100, 64512, 7} {3} sample_names
             ''20240101_120000'' ''2024-01-01 12:00:00.000001'' ''2024-01-01 12:00:00.000002'') = None
   \<and> written (write_results 650 {100, 64512, 7} {3} sample_names
             ''20240101_120000'' ''2024-01-01 12:00:00.000001'' ''2024-01-01 12:00:00.000002'') =
       [(''AS650_potential_peers_20240101_120000.txt'',
         ''# BGP.Tools Potential Peers Analysis - 2024-01-01 12:00:00.000001\<newline>''
         @ ''# ASNs that might peer with AS650\<newline>''
         @ ''# NOTE: This is based on heuristic analysis, not actual peering data\<newline>\<newline>''
         @ ''=== POTENTIAL PEERS ===\<newline>''
         @ ''Total: 3\<newline>\<newline>''
         @ ''AS7 - Seven Net\<newline>''
         @ ''  BGP.Tools: https://bgp.tools/as/7#whois\<newline>\<newline>''
         @ ''AS100 - AS100\<newline>''
         @ ''  BGP.Tools: https://bgp.tools/as/100#whois\<newline>\<newline>''
         @ ''AS64512 - Example Net\<newline>''
         @ ''  BGP.Tools: https://bgp.tools/as/64512#whois\<newline>\<newline>''),
        (''AS650_other_asns_20240101_120000.txt'',
         ''# BGP.Tools Other ASNs Analysis - 2024-01-01 12:00:00.000002\<newline>''
         @ ''# ASNs in similar IP space as AS650\<newline>''
         @ ''# NOTE: This is based on heuristic analysis\<newline>\<newline>''
         @ ''=== OTHER ASNs ===\<newline>''
         @ ''Total: 1\<newline>\<newline>''
         @ ''AS3 - AS3\<newline>''
         @ ''  BGP.Tools: https://bgp.tools/as/3#whois\<newline>\<newline>'')]"
proof -
  let ?out = "write_results 650 {100, 64512, 7} {3} sample_names
             ''20240101_120000'' ''2024-01-01 12:00:00.000001'' ''2024-01-01 12:00:00.000002''"
  have f: "finite {100, 64512, 7 :: int}" "finite {3 :: int}" by simp_all
  note t = write_results_ascending_with_names [OF f, where T = 650 and names = sample_names
      and stamp = "''20240101_120000''" and now_a = "''2024-01-01 12:00:00.000001''"
      and now_b = "''2024-01-01 12:00:00.000002''" and xs = "[64512, 7, 100]" and ys = "[3]"]
  have small: "\<forall>i \<in> {650, int (card {100, 64512, 7 :: int}), int (card {3 :: int})}
                   \<union> {100, 64512, 7} \<union> {3}. decimal_digits (nat \<bar>i\<bar>) \<le> 4300"
    by (simp add: decimal_digits_small)
  have ok: "raised ?out = None"
    using t [THEN conjunct1] small by blast
  from t [THEN conjunct2, rule_format, OF ok]
  obtain ps os where all: "sorted_wrt (<) ps \<and> set ps = {100, 64512, 7} \<and> sorted_wrt (<) os \<and> set os = {3}
               \<and> ({100, 64512, 7 :: int} = {100, 64512, 7} \<longrightarrow> ps = [7, 100, 64512])
               \<and> (distinct [64512, 7, 100 :: int] \<and> set [64512, 7, 100 :: int] = {100, 64512, 7}
                    \<longrightarrow> sort [64512, 7, 100] = ps)
               \<and> (distinct [3 :: int] \<and> set [3 :: int] = {3} \<longrightarrow> sort [3] = os)
               \<and> written ?out =
                   [(''AS'' @ int_text 650 @ ''_potential_peers_'' @ ''20240101_120000'' @ ''.txt'',
                     peers_opening (int_text 650) ''2024-01-01 12:00:00.000001''
                     @ ''Total: '' @ int_text (int (card {100, 64512, 7 :: int})) @ ''\<newline>\<newline>''
                     @ concat (map (\<lambda>a. entry_text (int_text a) (display_name sample_names a)) ps)),
                    (''AS'' @ int_text 650 @ ''_other_asns_'' @ ''20240101_120000'' @ ''.txt'',
                     other_opening (int_text 650) ''2024-01-01 12:00:00.000002''
                     @ ''Total: '' @ int_text (int (card {3 :: int})) @ ''\<newline>\<newline>''
                     @ concat (map (\<lambda>a. entry_text (int_text a) (display_name sample_names a)) os))]"
    by (elim exE)
  note ps = all [THEN conjunct1] all [THEN conjunct2, THEN conjunct1]
  note os = all [THEN conjunct2, THEN conjunct2, THEN conjunct1]
    all [THEN conjunct2, THEN conjunct2, THEN conjunct2, THEN conjunct1]
  note three = all [THEN conjunct2, THEN conjunct2, THEN conjunct2, THEN conjunct2, THEN conjunct1]
  note w = all [THEN conjunct2, THEN conjunct2, THEN conjunct2, THEN conjunct2, THEN conjunct2,
      THEN conjunct2, THEN conjunct2]
  have p3: "ps = [7, 100, 64512]" using three by simp
  have "sorted_wrt (<) [3 :: int]" "set [3 :: int] = set os" using os by simp_all
  with os(1) have o1: "os = [3]" using strict_sorted_equal [of os "[3]"] by simp
  show ?thesis
    unfolding w p3 o1 using ok
    by (simp add: peers_opening_def other_opening_def entry_text_def display_name_def
          sample_names_def int_text_def digits.simps digit_chars)
qed

subsection \<open>The two ASN checks\<close>

lemma int_text_plain:
  "int_text n \<noteq> [] \<and> strip (int_text n) = int_text n \<and> \<not> startswith_AS (upper (int_text n))"
proof -
  have ne: "int_text n \<noteq> []" by (simp add: int_text_def digits_nonempty)
  have "\<forall>c \<in> set (int_text n). \<not> is_space c"
    by (auto simp: int_text_def digits_all_digit digit_plain) (simp add: is_space_def)
  then have st: "strip (int_text n) = int_text n"
    unfolding strip_def by (rule strip_with_unchanged)
  obtain c cs where d: "int_text n = c # cs"
    using ne by (cases "int_text n") auto
  have "is_digit c \<or> c = CHR ''-''"
  proof (cases "n < 0")
    case True
    with d show ?thesis by (simp add: int_text_def)
  next
    case False
    with d have "c \<in> set (digits (nat n))" by (simp add: int_text_def)
    then show ?thesis by (simp add: digits_all_digit)
  qed
  then have "upper_codes c = [of_char c]" "(of_char c :: nat) \<noteq> 65"
    by (auto simp: upper_codes_def is_digit_def Let_def)
  then have "\<not> startswith_AS (upper (int_text n))"
    by (simp add: d upper_def startswith_AS_def)
  with ne st show ?thesis by simp
qed

lemma prompt_asn_text:
  "prompt_asn (int_text n) =
     (if decimal_digits (nat \<bar>n\<bar>) \<le> 4300
      then if n \<le> 0 \<or> n > 4294967295
           then Again ''ASN must be between 1 and 4294967295. Please try again.''
           else Accepted n
      else Again ''Invalid ASN format. Please enter a numeric ASN.'')"
  by (simp add: prompt_asn_def int_text_plain py_int_text)

lemma prompt_asn_accepts: "prompt_asn raw = Accepted n \<Longrightarrow> 1 \<le> n \<and> n \<le> 4294967295"
  by (auto simp: prompt_asn_def Let_def split: if_splits sum.splits)

lemma check_asn_passes: "check_asn n = None \<longleftrightarrow> 1 \<le> n \<and> n \<le> 4294967295"
  by (auto simp: check_asn_def split: sum.splits)

lemma check_asn_exit: "check_asn n = Some out \<Longrightarrow> exit_code out = 1"
  by (auto simp: check_asn_def split: if_splits sum.splits)

text \<open>
  C7. For every integer \<open>n\<close>: the ASN prompt accepts the decimal text of \<open>n\<close> as \<open>n\<close> exactly
  when \<open>1 \<le> n \<le> 4294967295\<close>, and the check of \<open>main\<close> passes \<open>n\<close> exactly then; whatever
  line the prompt accepts as \<open>n\<close>, the check of \<open>main\<close> passes \<open>n\<close>. When the check passes, the
  prompt loop leaves with \<open>n\<close> and, with both flags given and a valid User-Agent, \<open>main\<close>
  starts the analysis of \<open>n\<close>; when it does not, the prompt loop asks again and, with both
  flags given, the process ends with exit code 1 before any analysis.
\<close>

theorem asn_checks_agree:
  "(prompt_asn (int_text n) = Accepted n \<longleftrightarrow> 1 \<le> n \<and> n \<le> 4294967295)
   \<and> (check_asn n = None \<longleftrightarrow> 1 \<le> n \<and> n \<le> 4294967295)
   \<and> (prompt_asn raw = Accepted n \<longrightarrow> check_asn n = None)
   \<and> (check_asn n = None \<longrightarrow>
        prompt_loop prompt_asn (int_text n # rest) = Inr (n, rest)
        \<and> (arg_asn a = Some n \<and> arg_useragent a = Some u \<and> check_user_agent u = None
             \<longrightarrow> snd (main a stdin True w) =
                   Some (run_analysis \<lparr>target_asn = n, user_agent = u,
                                        debug_level = arg_debug a\<rparr> w)))
   \<and> (check_asn n \<noteq> None \<longrightarrow>
        prompt_loop prompt_asn (int_text n # rest) = prompt_loop prompt_asn rest
        \<and> (arg_asn a = Some n \<and> arg_useragent a = Some u
             \<longrightarrow> exit_code (fst (main a stdin probe_ok w)) = 1
               \<and> snd (main a stdin probe_ok w) = None))"
proof (intro conjI impI)
  show i: "prompt_asn (int_text n) = Accepted n \<longleftrightarrow> 1 \<le> n \<and> n \<le> 4294967295"
    using asn_range_small [of n] by (auto simp: prompt_asn_text)
  show "check_asn n = None \<longleftrightarrow> 1 \<le> n \<and> n \<le> 4294967295"
    by (rule check_asn_passes)
  show "check_asn n = None" if "prompt_asn raw = Accepted n"
    using that prompt_asn_accepts [of raw n] by (simp add: check_asn_passes)
  show "prompt_loop prompt_asn (int_text n # rest) = Inr (n, rest)" if "check_asn n = None"
    using that i by (simp add: check_asn_passes)
  show "snd (main a stdin True w) =
          Some (run_analysis \<lparr>target_asn = n, user_agent = u, debug_level = arg_debug a\<rparr> w)"
    if "check_asn n = None"
      and "arg_asn a = Some n \<and> arg_useragent a = Some u \<and> check_user_agent u = None"
    using that by (simp add: main_def chosen_input_def Let_def split: run_status.splits)
  show "prompt_loop prompt_asn (int_text n # rest) = prompt_loop prompt_asn rest"
    if "check_asn n \<noteq> None"
    using that by (auto simp: check_asn_passes prompt_asn_text)
  show "exit_code (fst (main a stdin probe_ok w)) = 1"
    if "check_asn n \<noteq> None" and "arg_asn a = Some n \<and> arg_useragent a = Some u"
    using that check_asn_exit [of n]
    by (auto simp: main_def chosen_input_def)
  show "snd (main a stdin probe_ok w) = None"
    if "check_asn n \<noteq> None" and "arg_asn a = Some n \<and> arg_useragent a = Some u"
    using that by (auto simp: main_def chosen_input_def)
qed

theorem asn_checks_agree_witness:
  "prompt_asn ''6939'' = Accepted 6939
   \<and> check_asn 6939 = None
   \<and> prompt_loop prompt_asn [''6939'', ''tool - ops@example.net'']
       = Inr (6939, [''tool - ops@example.net''])
   \<and> prompt_asn ''4294967296'' \<noteq> Accepted 4294967296
   \<and> check_asn 4294967296 \<noteq> None
   \<and> prompt_loop prompt_asn [''4294967296'', ''6939''] = prompt_loop prompt_asn [''6939'']
   \<and> exit_code (fst (main \<lparr>arg_asn = Some 4294967296,
                               arg_useragent = Some ''tool - ops@example.net'',
                               arg_debug = 2\<rparr> [] True sample_world)) = 1"
proof -
  have t: "int_text 6939 = ''6939''" "int_text 4294967296 = ''4294967296''"
    by (simp_all add: int_text_def digits.simps digit_chars)
  have r: "(1::int) \<le> 6939 \<and> (6939::int) \<le> 4294967295"
    "\<not> ((1::int) \<le> 4294967296 \<and> (4294967296::int) \<le> 4294967295)"
    by simp_all
  note a = asn_checks_agree [where n = 6939 and rest = "[''tool - ops@example.net'']",
      unfolded t]
  note b = asn_checks_agree [where n = 4294967296 and rest = "[''6939'']"
      and a = "\<lparr>arg_asn = Some 4294967296, arg_useragent = Some ''tool - ops@example.net'',
               arg_debug = 2\<rparr>"
      and u = "''tool - ops@example.net''" and stdin = "[]" and probe_ok = True
      and w = sample_world, unfolded t]
  have a1: "prompt_asn ''6939'' = Accepted 6939" "check_asn 6939 = None"
    using a r(1) by blast+
  have a2: "prompt_loop prompt_asn [''6939'', ''tool - ops@example.net'']
       = Inr (6939, [''tool - ops@example.net''])"
    using a a1(2) by blast
  have b1: "prompt_asn ''4294967296'' \<noteq> Accepted 4294967296" "check_asn 4294967296 \<noteq> None"
    using b r(2) by blast+
  have g: "arg_asn \<lparr>arg_asn = Some 4294967296, arg_useragent = Some ''tool - ops@example.net'',
               arg_debug = 2\<rparr> = Some 4294967296
         \<and> arg_useragent \<lparr>arg_asn = Some 4294967296, arg_useragent = Some ''tool - ops@example.net'',
               arg_debug = 2\<rparr> = Some ''tool - ops@example.net''"
    by simp
  have b2: "prompt_loop prompt_asn [''4294967296'', ''6939''] = prompt_loop prompt_asn [''6939'']"
    "exit_code (fst (main \<lparr>arg_asn = Some 4294967296,
                               arg_useragent = Some ''tool - ops@example.net'',
                               arg_debug = 2\<rparr> [] True sample_world)) = 1"
    using b b1(2) g by blast+
  show ?thesis using a1 a2 b1 b2 by simp
qed

subsection \<open>The run on an empty table\<close>

lemma get_asn_info_returns:
  "decimal_digits (nat \<bar>T\<bar>) \<le> 4300 \<Longrightarrow> \<exists>name. get_asn_info T whois = Inr name"
  by (simp add: get_asn_info_def py_str_cases Let_def split: option.splits)

lemma run_analysis_empty_table:
  assumes "download_table (w_loads w) (w_table_reply w) = []"
    and "decimal_digits (nat \<bar>target_asn self\<bar>) \<le> 4300"
    and "decimal_digits (nat \<bar>debug_level self\<bar>) \<le> 4300"
  shows "run_analysis self w =
     \<lparr>log_calls =
        log_separator self ''BGP.TOOLS PEERING ANALYSIS'' 1
        @ [(1, ''Analysis started at: '' @ w_started w),
           (1, ''Target ASN: AS'' @ int_text (target_asn self)),
           (1, ''User Agent: '' @ user_agent self),
           (1, ''Debug level: '' @ int_text (debug_level self)),
           (1, ''STEP 1: Getting ASN information''),
           (1, ''STEP 2: Downloading ASN names''),
           (1, ''STEP 3: Finding related ASNs''),
           (1, ''No related ASNs found'')],
      files = [], status = Returned\<rparr>"
proof -
  obtain name where n: "get_asn_info (target_asn self) (w_whois_reply w) = Inr name"
    using get_asn_info_returns [OF assms(2)] by blast
  have r: "get_related_asns (target_asn self) (download_table (w_loads w) (w_table_reply w)) = Inr {}"
    using assms(1) by (simp add: get_related_asns_def)
  show ?thesis
    using assms(2,3)
    by (simp add: run_analysis_def analysis_steps_def n r py_str_cases logged_def)
qed

text \<open>
  C5. When \<open>download_table\<close> returns the empty dictionary, \<open>get_related_asns\<close> returns the
  empty set; for a target and a debug level whose texts \<open>str\<close> can give, \<open>run_analysis\<close> then
  returns with no file written, its last log call being the notice
  \<open>No related ASNs found\<close>, which is printed when the debug level is at least 1; and a run
  of \<open>main\<close> that reaches this analysis ends with exit code 0.
\<close>

theorem empty_table_ends_run_early:
  assumes "download_table (w_loads w) (w_table_reply w) = []"
    and "decimal_digits (nat \<bar>target_asn self\<bar>) \<le> 4300"
    and "decimal_digits (nat \<bar>debug_level self\<bar>) \<le> 4300"
  shows "get_related_asns (target_asn self) (download_table (w_loads w) (w_table_reply w)) = Inr {}
       \<and> files (run_analysis self w) = []
       \<and> status (run_analysis self w) = Returned
       \<and> log_calls (run_analysis self w) \<noteq> []
       \<and> last (log_calls (run_analysis self w)) = (1, ''No related ASNs found'')
       \<and> (1 \<le> debug_level self \<longrightarrow>
            last (printed self (log_calls (run_analysis self w))) = ''No related ASNs found'')
       \<and> (chosen_input a stdin = Inr (target_asn self, user_agent self)
            \<and> arg_debug a = debug_level self
            \<and> 1 \<le> target_asn self \<and> target_asn self \<le> 4294967295
            \<and> CHR ''@'' \<in> set (user_agent self)
            \<longrightarrow> main a stdin True w = (Finished, Some (run_analysis self w))
              \<and> exit_code (fst (main a stdin True w)) = 0)"
proof -
  note run = run_analysis_empty_table [OF assms]
  have rel: "get_related_asns (target_asn self) (download_table (w_loads w) (w_table_reply w)) = Inr {}"
    using assms(1) by (simp add: get_related_asns_def)
  have pr: "1 \<le> debug_level self \<Longrightarrow>
      last (printed self (log_calls (run_analysis self w))) = ''No related ASNs found''"
    by (simp add: run printed_def)
  have self: "\<lparr>target_asn = target_asn self, user_agent = user_agent self,
               debug_level = debug_level self\<rparr> = self"
    by simp
  have mn: "chosen_input a stdin = Inr (target_asn self, user_agent self)
            \<and> arg_debug a = debug_level self
            \<and> 1 \<le> target_asn self \<and> target_asn self \<le> 4294967295
            \<and> CHR ''@'' \<in> set (user_agent self)
            \<Longrightarrow> main a stdin True w = (Finished, Some (run_analysis self w))
              \<and> exit_code (fst (main a stdin True w)) = 0"
    using run by (auto simp: main_def check_asn_def check_user_agent_def self)
  show ?thesis
    using rel pr mn by (simp add: run)
qed

lemma sample_world_table: "download_table (w_loads sample_world) (w_table_reply sample_world) = []"
  by (simp add: sample_world_def download_table_def)

theorem empty_table_ends_run_early_witness:
  "files (run_analysis \<lparr>target_asn = 64500, user_agent = ''tool - ops@example.net'', debug_level = 2\<rparr> sample_world) = []
   \<and> status (run_analysis \<lparr>target_asn = 64500, user_agent = ''tool - ops@example.net'', debug_level = 2\<rparr> sample_world) = Returned
   \<and> last (printed \<lparr>target_asn = 64500, user_agent = ''tool - ops@example.net'', debug_level = 2\<rparr>
        (log_calls (run_analysis \<lparr>target_asn = 64500, user_agent = ''tool - ops@example.net'', debug_level = 2\<rparr> sample_world)))
       = ''No related ASNs found''
   \<and> exit_code (fst (main sample_args [] True sample_world)) = 0"
proof -
  let ?self = "\<lparr>target_asn = 64500, user_agent = ''tool - ops@example.net'', debug_level = 2\<rparr>"
  have s: "decimal_digits (nat \<bar>target_asn ?self\<bar>) \<le> 4300"
    "decimal_digits (nat \<bar>debug_level ?self\<bar>) \<le> 4300"
    by (simp_all add: decimal_digits_small)
  note t = empty_table_ends_run_early [OF sample_world_table s, where a = sample_args and stdin = "[]"]
  have a: "chosen_input sample_args [] = Inr (target_asn ?self, user_agent ?self)
      \<and> arg_debug sample_args = debug_level ?self
      \<and> 1 \<le> target_asn ?self \<and> target_asn ?self \<le> 4294967295
      \<and> CHR ''@'' \<in> set (user_agent ?self)"
    by (simp add: sample_args_def chosen_input_def)
  have d: "1 \<le> debug_level ?self" by simp
  show ?thesis using t a d by blast
qed

subsection \<open>The table download\<close>

lemmas line_defs =
  line_record_def line_text_asn_def line_zero_text_def line_zero_def line_empty_prefix_def
  line_cut_def line_list_def

lemma loads_cases:
  "sample_loads line_record = Inr (JDict [(''CIDR'', JStr ''192.0.2.0/24''), (''ASN'', JInt 64500)])"
  "sample_loads line_text_asn = Inr (JDict [(''CIDR'', JStr ''198.51.100.0/24''), (''ASN'', JStr ''n/a'')])"
  "sample_loads line_zero_text = Inr (JDict [(''CIDR'', JStr ''10.0.0.0/8''), (''ASN'', JStr ''0'')])"
  "sample_loads line_zero = Inr (JDict [(''CIDR'', JStr ''203.0.113.0/24''), (''ASN'', JInt 0)])"
  "sample_loads line_empty_prefix = Inr (JDict [(''CIDR'', JStr ''''), (''ASN'', JInt 64501)])"
  "sample_loads line_list = Inr (JList [])"
  "sample_loads line_cut = Inl JSONDecodeError"
  by (simp_all add: sample_loads_def line_defs)

lemma lines_nonblank:
  "strip line_record \<noteq> []" "strip line_text_asn \<noteq> []" "strip line_zero_text \<noteq> []"
  "strip line_zero \<noteq> []" "strip line_empty_prefix \<noteq> []" "strip line_list \<noteq> []"
  "strip line_cut \<noteq> []"
  by (simp_all add: line_defs strip_def strip_with_def is_space_def)

lemma sample_asn_texts: "py_int ''n/a'' = Inl ValueError" "py_int ''0'' = Inr 0"
  by (simp_all add: text_eval)

lemma sample_table_lines:
  "table_line sample_loads line_record st = Inr (dict_set (KStr ''192.0.2.0/24'') 64500 (fst st), snd st + 1)"
  "table_line sample_loads line_text_asn st = Inl ValueError"
  "table_line sample_loads line_zero_text st = Inr (dict_set (KStr ''10.0.0.0/8'') 0 (fst st), snd st + 1)"
  "table_line sample_loads line_zero st = Inr st"
  "table_line sample_loads line_empty_prefix st = Inr st"
  "table_line sample_loads line_list st = Inl AttributeError"
  "table_line sample_loads line_cut st = Inr st"
  by (simp_all add: table_line_def table_line_body_def lines_nonblank loads_cases dict_get_def
        sample_asn_texts)


lemma sample_docs:
  "split CHR ''\<newline>'' (strip table_with_text_asn) = [line_record, line_text_asn]"
  "split CHR ''\<newline>'' (strip table_with_cut_line) = [line_record, line_cut]"
  "split CHR ''\<newline>'' (strip table_with_list_line) = [line_record, line_list]"
  "split CHR ''\<newline>'' (strip line_zero_text) = [line_zero_text]"
  by (simp_all add: table_with_text_asn_def table_with_cut_line_def table_with_list_line_def
        line_defs strip_def strip_with_def is_space_def push_char_def)

lemma sample_names_lines:
  "tl (split CHR ''\<newline>'' (strip names_with_text_asn))
     = [''AS64500,'' @ [CHR 0x22] @ ''Example Net'' @ [CHR 0x22] @ '',Unknown,ZZ'',
        ''ASn/a,'' @ [CHR 0x22] @ ''Broken'' @ [CHR 0x22] @ '',Unknown,ZZ'']"
  by (simp add: names_with_text_asn_def strip_def strip_with_def is_space_def push_char_def)

lemma sample_names_parts:
  "splitn 2 CHR '','' (''AS64500,'' @ [CHR 0x22] @ ''Example Net'' @ [CHR 0x22] @ '',Unknown,ZZ'')
     = [''AS64500'', [CHR 0x22] @ ''Example Net'' @ [CHR 0x22], ''Unknown,ZZ'']"
  "splitn 2 CHR '','' (''ASn/a,'' @ [CHR 0x22] @ ''Broken'' @ [CHR 0x22] @ '',Unknown,ZZ'')
     = [''ASn/a'', [CHR 0x22] @ ''Broken'' @ [CHR 0x22], ''Unknown,ZZ'']"
  by code_simp+

lemma sample_names_download:
  "download_asn_names (HttpOk names_with_text_asn) = [64500 \<mapsto> ''Example Net'']"
proof -
  have "download_asn_names (HttpOk names_with_text_asn) =
          foldl names_line Map.empty
            [''AS64500,'' @ [CHR 0x22] @ ''Example Net'' @ [CHR 0x22] @ '',Unknown,ZZ'',
             ''ASn/a,'' @ [CHR 0x22] @ ''Broken'' @ [CHR 0x22] @ '',Unknown,ZZ'']"
    by (simp add: download_asn_names_def sample_names_lines)
  also have "\<dots> = [64500 \<mapsto> ''Example Net'']"
    by (simp add: names_line_def sample_names_parts [simplified] text_eval)
  finally show ?thesis .
qed

text \<open>
  C4. A line that \<open>json.loads\<close> refuses is skipped, and the record on the line before it
  is kept. A line that decodes but whose ASN is no number, or that is no object, raises
  an exception that the inner handler does not catch: the outer handler returns the
  empty dictionary, and the record of the valid line is lost. The loop of
  \<open>download_asn_names\<close> skips a line of that kind and keeps the others.
\<close>

theorem malformed_line_loses_table:
  "download_table sample_loads (HttpOk table_with_cut_line) = [(KStr ''192.0.2.0/24'', 64500)]
   \<and> download_table sample_loads (HttpOk table_with_text_asn) = []
   \<and> download_table sample_loads (HttpOk table_with_list_line) = []
   \<and> download_asn_names (HttpOk names_with_text_asn) = [64500 \<mapsto> ''Example Net'']"
  by (simp add: download_table_def sample_docs sample_table_lines sample_names_download)

text \<open>
  The claim C10 as stated fails where the ASN field is the text of zero: the text is not
  empty, so the record is kept, with the value 0.
\<close>

theorem zero_text_asn_is_stored:
  "sample_loads line_zero_text = Inr (JDict [(''CIDR'', JStr ''10.0.0.0/8''), (''ASN'', JStr ''0'')])
   \<and> download_table sample_loads (HttpOk line_zero_text) = [(KStr ''10.0.0.0/8'', 0)]"
  by (simp add: download_table_def sample_docs sample_table_lines loads_cases)

lemma dict_set_entries: "(a, b) \<in> set (dict_set k v t) \<Longrightarrow> (a, b) \<in> set t \<or> (a = k \<and> b = v)"
  by (induction t) (auto simp: same_key_def split: if_splits)

lemma table_line_result:
  assumes "table_line loads line st = Inr st'"
  shows "st' = st
       \<or> (\<exists>items k v. loads line = Inr (JDict items)
             \<and> truthy (dict_get items ''CIDR'') \<and> truthy (dict_get items ''ASN'')
             \<and> int_of_json (dict_get items ''ASN'') = Inr v
             \<and> key_of_json (dict_get items ''CIDR'') = Inr k
             \<and> st' = (dict_set k v (fst st), snd st + 1))"
  using assms
  by (auto simp: table_line_def table_line_body_def Let_def
        split: if_splits sum.splits json.splits)

lemma truthy_key: "truthy c \<Longrightarrow> key_of_json c = Inr k \<Longrightarrow> k \<noteq> KStr []"
  by (cases c) auto

lemma truthy_value: "truthy a \<Longrightarrow> \<not> text_or_float a \<Longrightarrow> int_of_json a = Inr v \<Longrightarrow> v \<noteq> 0"
  by (cases a) (auto split: if_splits)

lemma table_line_entries:
  assumes l: "table_line loads line st = Inr st1"
    and old: "\<forall>e \<in> set (fst st). P e"
    and new: "\<And>items k v. loads line = Inr (JDict items) \<Longrightarrow>
                truthy (dict_get items ''CIDR'') \<Longrightarrow> truthy (dict_get items ''ASN'') \<Longrightarrow>
                int_of_json (dict_get items ''ASN'') = Inr v \<Longrightarrow>
                key_of_json (dict_get items ''CIDR'') = Inr k \<Longrightarrow> P (k, v)"
  shows "\<forall>e \<in> set (fst st1). P e"
proof
  fix e assume e: "e \<in> set (fst st1)"
  from table_line_result [OF l] show "P e"
  proof
    assume "st1 = st"
    with e old show ?thesis by simp
  next
    assume "\<exists>items k v. loads line = Inr (JDict items)
             \<and> truthy (dict_get items ''CIDR'') \<and> truthy (dict_get items ''ASN'')
             \<and> int_of_json (dict_get items ''ASN'') = Inr v
             \<and> key_of_json (dict_get items ''CIDR'') = Inr k
             \<and> st1 = (dict_set k v (fst st), snd st + 1)"
    then obtain items k v where f: "loads line = Inr (JDict items)"
      "truthy (dict_get items ''CIDR'')" "truthy (dict_get items ''ASN'')"
      "int_of_json (dict_get items ''ASN'') = Inr v"
      "key_of_json (dict_get items ''CIDR'') = Inr k"
      and s: "st1 = (dict_set k v (fst st), snd st + 1)"
      by blast
    from e s have "(fst e, snd e) \<in> set (dict_set k v (fst st))" by simp
    then have "(fst e, snd e) \<in> set (fst st) \<or> (fst e = k \<and> snd e = v)"
      by (rule dict_set_entries)
    then show ?thesis
    proof
      assume "(fst e, snd e) \<in> set (fst st)"
      with old show ?thesis by simp
    next
      assume "fst e = k \<and> snd e = v"
      then have "e = (k, v)" by (cases e) simp
      with new [OF f] show ?thesis by simp
    qed
  qed
qed

lemma parse_table_entries:
  "parse_table loads lines st = Inr st' \<Longrightarrow> \<forall>e \<in> set (fst st). P e \<Longrightarrow>
     (\<And>line items k v. line \<in> set lines \<Longrightarrow> loads line = Inr (JDict items) \<Longrightarrow>
                truthy (dict_get items ''CIDR'') \<Longrightarrow> truthy (dict_get items ''ASN'') \<Longrightarrow>
                int_of_json (dict_get items ''ASN'') = Inr v \<Longrightarrow>
                key_of_json (dict_get items ''CIDR'') = Inr k \<Longrightarrow> P (k, v)) \<Longrightarrow>
     \<forall>e \<in> set (fst st'). P e"
proof (induction lines arbitrary: st)
  case Nil
  then show ?case by simp
next
  case (Cons line rest)
  from Cons.prems(1) obtain st1 where
    l: "table_line loads line st = Inr st1" and p: "parse_table loads rest st1 = Inr st'"
    by (auto split: sum.splits)
  have "\<forall>e \<in> set (fst st1). P e"
    using l Cons.prems(2)
  proof (rule table_line_entries)
    fix items k v
    assume "loads line = Inr (JDict items)" "truthy (dict_get items ''CIDR'')"
      "truthy (dict_get items ''ASN'')" "int_of_json (dict_get items ''ASN'') = Inr v"
      "key_of_json (dict_get items ''CIDR'') = Inr k"
    then show "P (k, v)" using Cons.prems(3) [of line items v k] by simp
  qed
  with p show ?case
  proof (rule Cons.IH)
    fix l items k v
    assume "l \<in> set rest" "loads l = Inr (JDict items)" "truthy (dict_get items ''CIDR'')"
      "truthy (dict_get items ''ASN'')" "int_of_json (dict_get items ''ASN'') = Inr v"
      "key_of_json (dict_get items ''CIDR'') = Inr k"
    then show "P (k, v)" using Cons.prems(3) [of l items v k] by simp
  qed
qed

lemma download_table_entries:
  assumes "\<And>line items k v. line \<in> set (table_lines reply) \<Longrightarrow>
                loads line = Inr (JDict items) \<Longrightarrow>
                truthy (dict_get items ''CIDR'') \<Longrightarrow> truthy (dict_get items ''ASN'') \<Longrightarrow>
                int_of_json (dict_get items ''ASN'') = Inr v \<Longrightarrow>
                key_of_json (dict_get items ''CIDR'') = Inr k \<Longrightarrow> P (k, v)"
  shows "\<forall>e \<in> set (download_table loads reply). P e"
proof (cases reply)
  case HttpError
  then show ?thesis by (simp add: download_table_def)
next
  case (HttpOk body)
  show ?thesis
  proof (cases "parse_table loads (split CHR ''\<newline>'' (strip body)) ([], 0)")
    case (Inl e)
    with HttpOk show ?thesis by (simp add: download_table_def)
  next
    case (Inr st')
    have "\<forall>e \<in> set (fst st'). P e"
      using Inr
    proof (rule parse_table_entries)
      show "\<forall>e \<in> set (fst ([], 0 :: nat)). P e" by simp
    next
      fix line items k v
      assume "line \<in> set (split CHR ''\<newline>'' (strip body))"
        "loads line = Inr (JDict items)" "truthy (dict_get items ''CIDR'')"
        "truthy (dict_get items ''ASN'')" "int_of_json (dict_get items ''ASN'') = Inr v"
        "key_of_json (dict_get items ''CIDR'') = Inr k"
      then show "P (k, v)"
        using assms [of line items v k] HttpOk by (simp add: table_lines_def)
    qed
    with HttpOk Inr show ?thesis by (simp add: download_table_def)
  qed
qed

lemma table_line_dropped:
  assumes "loads line = Inr (JDict items)"
    and "map_of items ''CIDR'' = Some cidr" and "map_of items ''ASN'' = Some asn"
    and "asn = JInt 0 \<or> asn = JFloat (Finite 0) \<or> cidr = JStr []"
  shows "table_line loads line st = Inr st"
  using assms by (auto simp: table_line_def table_line_body_def dict_get_def)

text \<open>
  C10, as the code has it. A line that decodes to an object with both a \<open>CIDR\<close> and an
  \<open>ASN\<close> field leaves the dictionary and the count as they were when the ASN is 0,
  integer or float, or the CIDR is the empty string. The dictionary returned never has
  the empty string as a key; and it never has 0 as a value when no line of the download
  decodes to an object whose ASN field is a string or a float.
\<close>

theorem download_table_drops_zero_and_empty:
  "(loads line = Inr (JDict items) \<and> map_of items ''CIDR'' = Some cidr
      \<and> map_of items ''ASN'' = Some asn \<and> (asn = JInt 0 \<or> asn = JFloat (Finite 0) \<or> cidr = JStr [])
     \<longrightarrow> table_line loads line st = Inr st)
   \<and> (\<forall>(k, v) \<in> set (download_table loads reply). k \<noteq> KStr [])
   \<and> ((\<forall>l \<in> set (table_lines reply). \<forall>fields. loads l = Inr (JDict fields)
          \<longrightarrow> \<not> text_or_float (dict_get fields ''ASN''))
       \<longrightarrow> (\<forall>(k, v) \<in> set (download_table loads reply). v \<noteq> 0))"
proof (intro conjI impI)
  show "table_line loads line st = Inr st"
    if "loads line = Inr (JDict items) \<and> map_of items ''CIDR'' = Some cidr
      \<and> map_of items ''ASN'' = Some asn \<and> (asn = JInt 0 \<or> asn = JFloat (Finite 0) \<or> cidr = JStr [])"
    using that table_line_dropped by blast
  have "\<forall>e \<in> set (download_table loads reply). fst e \<noteq> KStr []"
    by (rule download_table_entries) (simp add: truthy_key)
  then show "\<forall>(k, v) \<in> set (download_table loads reply). k \<noteq> KStr []"
    by (simp add: case_prod_beta)
  show "\<forall>(k, v) \<in> set (download_table loads reply). v \<noteq> 0"
    if h: "\<forall>l \<in> set (table_lines reply). \<forall>fields. loads l = Inr (JDict fields)
          \<longrightarrow> \<not> text_or_float (dict_get fields ''ASN'')"
  proof -
    have "\<forall>e \<in> set (download_table loads reply). snd e \<noteq> 0"
    proof (rule download_table_entries)
      fix line items k v
      assume "line \<in> set (table_lines reply)" "loads line = Inr (JDict items)"
        and t: "truthy (dict_get items ''ASN'')" "int_of_json (dict_get items ''ASN'') = Inr v"
      with h have "\<not> text_or_float (dict_get items ''ASN'')" by blast
      with t show "snd (k, v) \<noteq> 0" by (simp add: truthy_value)
    qed
    then show ?thesis by (simp add: case_prod_beta)
  qed
qed

lemma sample_dropped_lines:
  "split CHR ''\<newline>'' (strip table_with_dropped_records)
     = [line_record, line_zero, line_empty_prefix]"
  by (simp add: table_with_dropped_records_def line_defs strip_def strip_with_def is_space_def
        push_char_def)

theorem download_table_drops_zero_and_empty_witness:
  "table_line sample_loads line_zero ([], 0) = Inr ([], 0)
   \<and> (KStr [], 64501) \<notin> set (download_table sample_loads (HttpOk table_with_dropped_records))
   \<and> (KStr ''203.0.113.0/24'', 0)
       \<notin> set (download_table sample_loads (HttpOk table_with_dropped_records))
   \<and> download_table sample_loads (HttpOk table_with_dropped_records)
       = [(KStr ''192.0.2.0/24'', 64500)]"
proof -
  note t = download_table_drops_zero_and_empty [where loads = sample_loads and line = line_zero
      and items = "[(''CIDR'', JStr ''203.0.113.0/24''), (''ASN'', JInt 0)]"
      and cidr = "JStr ''203.0.113.0/24''" and asn = "JInt 0" and st = "([], 0)"
      and reply = "HttpOk table_with_dropped_records"]
  have h1: "sample_loads line_zero = Inr (JDict [(''CIDR'', JStr ''203.0.113.0/24''), (''ASN'', JInt 0)])
      \<and> map_of [(''CIDR'', JStr ''203.0.113.0/24''), (''ASN'', JInt 0)] ''CIDR''
          = Some (JStr ''203.0.113.0/24'')
      \<and> map_of [(''CIDR'', JStr ''203.0.113.0/24''), (''ASN'', JInt 0)] ''ASN'' = Some (JInt 0)
      \<and> (JInt 0 = JInt 0 \<or> JInt 0 = JFloat (Finite 0) \<or> JStr ''203.0.113.0/24'' = JStr [])"
    by (simp add: loads_cases)
  have h3: "\<forall>l \<in> set (table_lines (HttpOk table_with_dropped_records)).
             \<forall>fields. sample_loads l = Inr (JDict fields)
               \<longrightarrow> \<not> text_or_float (dict_get fields ''ASN'')"
    by (auto simp: table_lines_def sample_dropped_lines loads_cases dict_get_def)
  have c1: "table_line sample_loads line_zero ([], 0) = Inr ([], 0)"
    using t h1 by blast
  have c2: "\<forall>(k, v) \<in> set (download_table sample_loads (HttpOk table_with_dropped_records)).
              k \<noteq> KStr []"
    using t by blast
  have c3: "\<forall>(k, v) \<in> set (download_table sample_loads (HttpOk table_with_dropped_records)).
              v \<noteq> 0"
    using t h3 by blast
  have c4: "download_table sample_loads (HttpOk table_with_dropped_records)
       = [(KStr ''192.0.2.0/24'', 64500)]"
    by (simp add: download_table_def sample_dropped_lines sample_table_lines)
  show ?thesis using c1 c2 c3 c4 by auto
qed

end
